theory Spec2Isabelle
  imports Complex_Main
begin

section \<open>Data model\<close>

text \<open>
  The ledger tables imported from \<open>models\<close> (Memory, MemoryStatusHistory,
  MemoryAccessLog, User, App) are records holding the columns that
  \<open>server_standalone.py\<close> reads or writes; a table is the list of its rows.
  Columns the handlers never set (generated keys of history and access-log rows,
  creation times) are left out, and so are the constraints between tables, which
  \<open>models\<close> would declare; the primary key of Memory is checked where the
  handlers insert a row with a key of the engine's choosing.
\<close>

type_synonym uuid = nat
type_synonym timestamp = nat
type_synonym pydict = "(string \<times> string) list"

datatype MemoryState = active | deleted

record Memory =
  mem_id :: uuid
  mem_user_id :: uuid
  mem_app_id :: uuid
  mem_content :: string
  mem_state :: MemoryState
  mem_deleted_at :: "timestamp option"

record MemoryStatusHistory =
  hist_memory_id :: uuid
  hist_changed_by :: uuid
  hist_old_state :: "MemoryState option"
  hist_new_state :: MemoryState

datatype pyval = PyStr string | PyFloat real | PyNone

record MemoryAccessLog =
  log_memory_id :: uuid
  log_app_id :: uuid
  log_access_type :: string
  log_metadata :: "(string \<times> pyval) list"

record User =
  usr_id :: uuid
  usr_user_id :: string

record App =
  app_id :: uuid
  app_owner_id :: uuid
  app_name :: string
  app_is_active :: bool

record ledger =
  users :: "User list"
  apps :: "App list"
  memories :: "Memory list"
  status_history :: "MemoryStatusHistory list"
  access_logs :: "MemoryAccessLog list"

text \<open>Exceptions are values; \<open>error_str\<close> is Python's \<open>str(e)\<close>.\<close>

datatype error =
    EngineError string
  | KeyError string
  | ValueError string
  | AttributeError string
  | IntegrityError string

fun error_str :: "error \<Rightarrow> string" where
  "error_str (EngineError s) = s"
| "error_str (KeyError k) = [CHR 0x27] @ k @ [CHR 0x27]"
| "error_str (ValueError s) = s"
| "error_str (AttributeError s) = s"
| "error_str (IntegrityError s) = s"

subsection \<open>The memory engine and the vector store\<close>

text \<open>
  The engine is an opaque collaborator: each of its entry points is a function that
  either raises or returns. A dictionary returned by the engine is an association
  list from keys to string values. A Qdrant filter is the list of its \<open>must\<close>
  conditions.
\<close>

datatype add_response = ResultsDict "pydict list" | OtherResponse string

datatype get_all_response = GetAllDict "pydict list" | GetAllList "pydict list" | GetAllOther

datatype condition = FieldCondition string string | HasIdCondition "string list"

datatype qfilter = Filter "condition list"

record point =
  pt_id :: string
  pt_payload :: pydict
  pt_score :: real

text \<open>
  Qdrant's reading of a filter: a point satisfies it when every \<open>must\<close> condition
  holds, a field condition by the payload value under its key, an id condition by
  the point's id being listed.
\<close>

fun matches :: "condition \<Rightarrow> point \<Rightarrow> bool" where
  "matches (FieldCondition k v) p = (map_of (pt_payload p) k = Some v)"
| "matches (HasIdCondition ids) p = (pt_id p \<in> set ids)"

fun satisfies :: "qfilter \<Rightarrow> point \<Rightarrow> bool" where
  "satisfies (Filter must) p = list_all (\<lambda>c. matches c p) must"

record memory_client =
  mc_add :: "string \<Rightarrow> string \<Rightarrow> pydict \<Rightarrow> error + add_response"
  mc_get_all :: "string \<Rightarrow> error + get_all_response"
  mc_delete :: "uuid \<Rightarrow> error + unit"
  mc_embed :: "string \<Rightarrow> string \<Rightarrow> error + real list"
  mc_query_points :: "real list \<Rightarrow> qfilter \<Rightarrow> nat \<Rightarrow> error + point list"

text \<open>
  What the handlers take from their surroundings: the configured defaults, the
  memory client (\<open>None\<close> when unavailable), the permission predicate of
  \<open>memory_utils\<close>, \<open>uuid.UUID\<close> (\<open>None\<close> where it raises ValueError) and
  \<open>str\<close> on UUIDs, the clock, the keys given to newly created User and App rows,
  and whether the session flushes pending rows before a query.
\<close>

record env =
  DEFAULT_USER_ID :: string
  DEFAULT_CLIENT_NAME :: string
  get_memory_client_safe :: "memory_client option"
  check_memory_access_permissions :: "ledger \<Rightarrow> Memory \<Rightarrow> uuid \<Rightarrow> bool"
  uuid_of_string :: "string \<Rightarrow> uuid option"
  string_of_uuid :: "uuid \<Rightarrow> string"
  now :: timestamp
  new_user_key :: uuid
  new_app_key :: uuid
  autoflush :: bool

text \<open>
  What a handler does besides returning: the session it opens, the engine calls it
  makes, in order, and the commit.
\<close>

datatype effect =
    OpenSession
  | EngineAdd string string pydict
  | EngineGetAll string
  | EngineEmbed string string
  | EngineQueryPoints "real list" qfilter nat
  | EngineDelete uuid
  | Commit

record hit =
  h_id :: string
  h_memory :: string
  h_hash :: "string option"
  h_created_at :: "string option"
  h_updated_at :: "string option"
  h_score :: real

text \<open>The Python value handed to \<open>json.dumps\<close> by each \<open>return\<close>.\<close>

datatype response =
    ErrorJson string
  | AddJson add_response
  | SearchJson "hit list"
  | ListJson "pydict list"
  | MessageJson string

section \<open>Helpers\<close>

definition py_or :: "string option \<Rightarrow> string \<Rightarrow> string" where
  "py_or x d = (case x of None \<Rightarrow> d | Some s \<Rightarrow> if s = [] then d else s)"

definition getitem :: "pydict \<Rightarrow> string \<Rightarrow> error + string" where
  "getitem d k = (case map_of d k of None \<Rightarrow> Inl (KeyError k) | Some v \<Rightarrow> Inr v)"

definition parse_uuid :: "env \<Rightarrow> string \<Rightarrow> error + uuid" where
  "parse_uuid e s =
     (case uuid_of_string e s of
        None \<Rightarrow> Inl (ValueError ''badly formed hexadecimal UUID string'')
      | Some u \<Rightarrow> Inr u)"

definition unavailable :: response where
  "unavailable = ErrorJson ''Memory system is currently unavailable. Please try again later.''"

text \<open>\<open>db.query(Memory).filter(Memory.id == memory_id).first()\<close>\<close>

definition query_memory_first :: "ledger \<Rightarrow> uuid \<Rightarrow> Memory option" where
  "query_memory_first db memory_id = find (\<lambda>m. mem_id m = memory_id) (memories db)"

text \<open>Assignment to the attributes of the row object that \<open>first()\<close> returned.\<close>

fun update_first :: "uuid \<Rightarrow> (Memory \<Rightarrow> Memory) \<Rightarrow> Memory list \<Rightarrow> Memory list" where
  "update_first i f [] = []"
| "update_first i f (m # ms) = (if mem_id m = i then f m # ms else m # update_first i f ms)"

text \<open>
  Modelled from the spec: \<open>get_user_and_app\<close> of \<open>memory_utils\<close>, which is not among
  the sources. Given a user identifier and a client name it returns the User and App
  records, creating either if missing, the App defaulting to active.
\<close>

definition get_user_and_app :: "env \<Rightarrow> ledger \<Rightarrow> string \<Rightarrow> string \<Rightarrow> ledger \<times> User \<times> App" where
  "get_user_and_app e db user_id client =
     (let (db1, user) =
            (case find (\<lambda>u. usr_user_id u = user_id) (users db) of
               Some u \<Rightarrow> (db, u)
             | None \<Rightarrow>
                 (let u = \<lparr>usr_id = new_user_key e, usr_user_id = user_id\<rparr>
                  in (db\<lparr>users := users db @ [u]\<rparr>, u)));
          (db2, app) =
            (case find (\<lambda>a. app_owner_id a = usr_id user \<and> app_name a = client) (apps db1) of
               Some a \<Rightarrow> (db1, a)
             | None \<Rightarrow>
                 (let a = \<lparr>app_id = new_app_key e, app_owner_id = usr_id user,
                           app_name = client, app_is_active = True\<rparr>
                  in (db1\<lparr>apps := apps db1 @ [a]\<rparr>, a)))
      in (db2, user, app))"

text \<open>
  The accessible id list, written out three times in the source
  (\<open>search_memory\<close>, \<open>list_memories\<close>, \<open>delete_all_memories\<close>): every Memory row
  of the user, kept when the permission predicate holds.
\<close>

definition accessible_memory_ids :: "env \<Rightarrow> ledger \<Rightarrow> User \<Rightarrow> App \<Rightarrow> uuid list" where
  "accessible_memory_ids e db user app =
     (let user_memories = filter (\<lambda>m. mem_user_id m = usr_id user) (memories db)
      in map mem_id
           (filter (\<lambda>memory. check_memory_access_permissions e db memory (app_id app))
              user_memories))"

section \<open>add_memories\<close>

text \<open>
  A session is the ledger as its queries see it, together with the Memory rows that
  were added but not yet flushed. With autoflush an added row is visible to the
  next query; without, it is inserted at commit, where a key that is already taken
  raises.
\<close>

record session =
  s_db :: ledger
  s_new :: "Memory list"

definition db_add_memory :: "env \<Rightarrow> session \<Rightarrow> Memory \<Rightarrow> session" where
  "db_add_memory e s m =
     (if autoflush e
      then s\<lparr>s_db := (s_db s)\<lparr>memories := memories (s_db s) @ [m]\<rparr>\<rparr>
      else s\<lparr>s_new := s_new s @ [m]\<rparr>)"

definition db_add_history :: "session \<Rightarrow> MemoryStatusHistory \<Rightarrow> session" where
  "db_add_history s h = s\<lparr>s_db := (s_db s)\<lparr>status_history := status_history (s_db s) @ [h]\<rparr>\<rparr>"

definition set_memory :: "session \<Rightarrow> uuid \<Rightarrow> (Memory \<Rightarrow> Memory) \<Rightarrow> session" where
  "set_memory s i f = s\<lparr>s_db := (s_db s)\<lparr>memories := update_first i f (memories (s_db s))\<rparr>\<rparr>"

definition db_commit :: "session \<Rightarrow> error + ledger" where
  "db_commit s =
     (if distinct (map mem_id (s_new s)) \<and>
         (\<forall>m \<in> set (s_new s). mem_id m \<notin> set (map mem_id (memories (s_db s))))
      then Inr ((s_db s)\<lparr>memories := memories (s_db s) @ s_new s\<rparr>)
      else Inl (IntegrityError ''UNIQUE constraint failed: memories.id''))"

text \<open>
  The history entry of the ADD branch: \<open>old_state=MemoryState.deleted if memory else None\<close>,
  where \<open>memory\<close> is the variable as it stands after the branch above it.
\<close>

definition add_history :: "User \<Rightarrow> uuid \<Rightarrow> Memory option \<Rightarrow> MemoryStatusHistory" where
  "add_history user memory_id memory =
     \<lparr>hist_memory_id = memory_id, hist_changed_by = usr_id user,
      hist_old_state = (if memory \<noteq> None then Some deleted else None),
      hist_new_state = active\<rparr>"

text \<open>
  One iteration of the loop over \<open>response['results']\<close>. A missing key raises
  KeyError wherever the source subscripts the result; within the ADD branch that
  happens before anything is added to the session or after an assignment that the
  discarded session loses, so the lookup of \<open>result['memory']\<close> is written once.
\<close>

definition process_result :: "env \<Rightarrow> User \<Rightarrow> App \<Rightarrow> session \<Rightarrow> pydict \<Rightarrow> error + session" where
  "process_result e user app s result =
     (case getitem result ''id'' of
        Inl x \<Rightarrow> Inl x
      | Inr id_str \<Rightarrow>
          (case parse_uuid e id_str of
             Inl x \<Rightarrow> Inl x
           | Inr memory_id \<Rightarrow>
               (let memory = query_memory_first (s_db s) memory_id
                in case getitem result ''event'' of
                     Inl x \<Rightarrow> Inl x
                   | Inr event \<Rightarrow>
                       (if event = ''ADD'' then
                          (case getitem result ''memory'' of
                             Inl x \<Rightarrow> Inl x
                           | Inr content \<Rightarrow>
                               (case memory of
                                  None \<Rightarrow>
                                    (let memory = \<lparr>mem_id = memory_id, mem_user_id = usr_id user,
                                                    mem_app_id = app_id app, mem_content = content,
                                                    mem_state = active, mem_deleted_at = None\<rparr>
                                     in Inr (db_add_history (db_add_memory e s memory)
                                               (add_history user memory_id (Some memory))))
                                | Some m \<Rightarrow>
                                    Inr (db_add_history
                                           (set_memory s memory_id
                                              (\<lambda>m. m\<lparr>mem_state := active, mem_content := content\<rparr>))
                                           (add_history user memory_id
                                              (Some (m\<lparr>mem_state := active,
                                                       mem_content := content\<rparr>))))))
                        else if event = ''DELETE'' then
                          (case memory of
                             Some m \<Rightarrow>
                               Inr (db_add_history
                                      (set_memory s memory_id
                                         (\<lambda>m. m\<lparr>mem_state := deleted,
                                                 mem_deleted_at := Some (now e)\<rparr>))
                                      \<lparr>hist_memory_id = memory_id, hist_changed_by = usr_id user,
                                       hist_old_state = Some active, hist_new_state = deleted\<rparr>)
                           | None \<Rightarrow> Inr s)
                        else Inr s))))"

fun process_results :: "env \<Rightarrow> User \<Rightarrow> App \<Rightarrow> session \<Rightarrow> pydict list \<Rightarrow> error + session" where
  "process_results e user app s [] = Inr s"
| "process_results e user app s (result # rest) =
     (case process_result e user app s result of
        Inl x \<Rightarrow> Inl x
      | Inr s1 \<Rightarrow> process_results e user app s1 rest)"

definition add_metadata :: "string \<Rightarrow> pydict" where
  "add_metadata client_name = [(''source_app'', ''openmemory''), (''mcp_client'', client_name)]"

definition paused_message :: "App \<Rightarrow> string" where
  "paused_message app =
     ''App '' @ app_name app @ '' is currently paused on OpenMemory. Cannot create new memories.''"

text \<open>
  The handler returns the value it serialises, the ledger as it stands after the
  request (uncommitted work is discarded with the session) and its effects.
\<close>

definition add_memories ::
  "env \<Rightarrow> string \<Rightarrow> string option \<Rightarrow> string option \<Rightarrow> ledger \<Rightarrow> response \<times> ledger \<times> effect list" where
  "add_memories e text_in user_id_in client_name_in db =
     (let user_id = py_or user_id_in (DEFAULT_USER_ID e);
          client_name = py_or client_name_in (DEFAULT_CLIENT_NAME e)
      in case get_memory_client_safe e of
           None \<Rightarrow> (unavailable, db, [])
         | Some client \<Rightarrow>
             (let (db1, user, app) = get_user_and_app e db user_id client_name
              in if \<not> app_is_active app
                 then (ErrorJson (paused_message app), db1, [OpenSession])
                 else
                   (let call = EngineAdd text_in user_id (add_metadata client_name)
                    in case mc_add client text_in user_id (add_metadata client_name) of
                         Inl x \<Rightarrow>
                           (ErrorJson (''Error adding to memory: '' @ error_str x), db1,
                            [OpenSession, call])
                       | Inr resp \<Rightarrow>
                           (case resp of
                              ResultsDict results \<Rightarrow>
                                (case process_results e user app \<lparr>s_db = db1, s_new = []\<rparr> results of
                                   Inl x \<Rightarrow>
                                     (ErrorJson (''Error adding to memory: '' @ error_str x), db1,
                                      [OpenSession, call])
                                 | Inr s \<Rightarrow>
                                     (case db_commit s of
                                        Inl x \<Rightarrow>
                                          (ErrorJson (''Error adding to memory: '' @ error_str x),
                                           db1, [OpenSession, call])
                                      | Inr db2 \<Rightarrow> (AddJson resp, db2, [OpenSession, call, Commit])))
                            | OtherResponse v \<Rightarrow> (AddJson resp, db1, [OpenSession, call])))))"

section \<open>search_memory\<close>

definition search_conditions :: "string \<Rightarrow> string list \<Rightarrow> condition list" where
  "search_conditions user_id accessible_strs =
     [FieldCondition ''user_id'' user_id] @
     (if accessible_strs \<noteq> [] then [HasIdCondition accessible_strs] else [])"

definition to_hit :: "point \<Rightarrow> error + hit" where
  "to_hit p =
     (case getitem (pt_payload p) ''data'' of
        Inl x \<Rightarrow> Inl x
      | Inr d \<Rightarrow>
          Inr \<lparr>h_id = pt_id p, h_memory = d,
               h_hash = map_of (pt_payload p) ''hash'',
               h_created_at = map_of (pt_payload p) ''created_at'',
               h_updated_at = map_of (pt_payload p) ''updated_at'',
               h_score = pt_score p\<rparr>)"

fun to_hits :: "point list \<Rightarrow> error + hit list" where
  "to_hits [] = Inr []"
| "to_hits (p # ps) =
     (case to_hit p of
        Inl x \<Rightarrow> Inl x
      | Inr h \<Rightarrow> (case to_hits ps of Inl x \<Rightarrow> Inl x | Inr hs \<Rightarrow> Inr (h # hs)))"

definition opt_val :: "string option \<Rightarrow> pyval" where
  "opt_val x = (case x of None \<Rightarrow> PyNone | Some s \<Rightarrow> PyStr s)"

definition search_log :: "App \<Rightarrow> string \<Rightarrow> uuid \<Rightarrow> hit \<Rightarrow> MemoryAccessLog" where
  "search_log app query memory_id h =
     \<lparr>log_memory_id = memory_id, log_app_id = app_id app, log_access_type = ''search'',
      log_metadata = [(''query'', PyStr query), (''score'', PyFloat (h_score h)),
                      (''hash'', opt_val (h_hash h))]\<rparr>"

text \<open>The loop that logs each hit; it stops at the first id that is no UUID.\<close>

fun log_hits :: "env \<Rightarrow> App \<Rightarrow> string \<Rightarrow> hit list \<Rightarrow> error + MemoryAccessLog list" where
  "log_hits e app query [] = Inr []"
| "log_hits e app query (h # hs) =
     (case parse_uuid e (h_id h) of
        Inl x \<Rightarrow> Inl x
      | Inr memory_id \<Rightarrow>
          (case log_hits e app query hs of
             Inl x \<Rightarrow> Inl x
           | Inr ls \<Rightarrow> Inr (search_log app query memory_id h # ls)))"

definition search_memory ::
  "env \<Rightarrow> string \<Rightarrow> string option \<Rightarrow> string option \<Rightarrow> ledger \<Rightarrow> response \<times> ledger \<times> effect list" where
  "search_memory e query user_id_in client_name_in db =
     (let user_id = py_or user_id_in (DEFAULT_USER_ID e);
          client_name = py_or client_name_in (DEFAULT_CLIENT_NAME e)
      in case get_memory_client_safe e of
           None \<Rightarrow> (unavailable, db, [])
         | Some client \<Rightarrow>
             (let (db1, user, app) = get_user_and_app e db user_id client_name;
                  ids = accessible_memory_ids e db1 user app;
                  filters = Filter (search_conditions user_id (map (string_of_uuid e) ids));
                  fail = (\<lambda>x eff. (ErrorJson (''Error searching memory: '' @ error_str x), db1,
                                    OpenSession # eff))
              in case mc_embed client query ''search'' of
                   Inl x \<Rightarrow> fail x [EngineEmbed query ''search'']
                 | Inr embeddings \<Rightarrow>
                     (let eff = [EngineEmbed query ''search'',
                                 EngineQueryPoints embeddings filters 10]
                      in case mc_query_points client embeddings filters 10 of
                           Inl x \<Rightarrow> fail x eff
                         | Inr points \<Rightarrow>
                             (case to_hits points of
                                Inl x \<Rightarrow> fail x eff
                              | Inr found \<Rightarrow>
                                  (case log_hits e app query found of
                                     Inl x \<Rightarrow> fail x eff
                                   | Inr logs \<Rightarrow>
                                       (SearchJson found,
                                        db1\<lparr>access_logs := access_logs db1 @ logs\<rparr>,
                                        OpenSession # eff @ [Commit]))))))"

section \<open>list_memories\<close>

definition list_log :: "App \<Rightarrow> uuid \<Rightarrow> pydict \<Rightarrow> MemoryAccessLog" where
  "list_log app memory_id memory =
     \<lparr>log_memory_id = memory_id, log_app_id = app_id app, log_access_type = ''list'',
      log_metadata = [(''hash'', opt_val (map_of memory ''hash''))]\<rparr>"

text \<open>
  The filtering loop, returning the access-log rows added and \<open>filtered_memories\<close>.
\<close>

fun filter_memories ::
  "env \<Rightarrow> App \<Rightarrow> uuid list \<Rightarrow> pydict list \<Rightarrow> error + (MemoryAccessLog list \<times> pydict list)" where
  "filter_memories e app ids [] = Inr ([], [])"
| "filter_memories e app ids (memory # rest) =
     (case getitem memory ''id'' of
        Inl x \<Rightarrow> Inl x
      | Inr id_str \<Rightarrow>
          (case parse_uuid e id_str of
             Inl x \<Rightarrow> Inl x
           | Inr memory_id \<Rightarrow>
               (case filter_memories e app ids rest of
                  Inl x \<Rightarrow> Inl x
                | Inr (logs, kept) \<Rightarrow>
                    (if memory_id \<in> set ids
                     then Inr (list_log app memory_id memory # logs, memory # kept)
                     else Inr (logs, kept)))))"

definition memories_list :: "get_all_response \<Rightarrow> pydict list" where
  "memories_list r = (case r of GetAllDict l \<Rightarrow> l | GetAllList l \<Rightarrow> l | GetAllOther \<Rightarrow> [])"

definition list_memories ::
  "env \<Rightarrow> string option \<Rightarrow> string option \<Rightarrow> ledger \<Rightarrow> response \<times> ledger \<times> effect list" where
  "list_memories e user_id_in client_name_in db =
     (let user_id = py_or user_id_in (DEFAULT_USER_ID e);
          client_name = py_or client_name_in (DEFAULT_CLIENT_NAME e)
      in case get_memory_client_safe e of
           None \<Rightarrow> (unavailable, db, [])
         | Some client \<Rightarrow>
             (let (db1, user, app) = get_user_and_app e db user_id client_name;
                  eff = [OpenSession, EngineGetAll user_id]
              in case mc_get_all client user_id of
                   Inl x \<Rightarrow> (ErrorJson (''Error getting memories: '' @ error_str x), db1, eff)
                 | Inr got \<Rightarrow>
                     (let ids = accessible_memory_ids e db1 user app
                      in case filter_memories e app ids (memories_list got) of
                           Inl x \<Rightarrow>
                             (ErrorJson (''Error getting memories: '' @ error_str x), db1, eff)
                         | Inr (logs, filtered_memories) \<Rightarrow>
                             (ListJson filtered_memories,
                              db1\<lparr>access_logs := access_logs db1 @ logs\<rparr>,
                              eff @ [Commit]))))"

section \<open>delete_all_memories\<close>

text \<open>
  The first loop asks the engine to delete each id; an exception is caught inside
  the loop, so the outcome of a call changes nothing but the warning logged.
\<close>

definition engine_deletes :: "memory_client \<Rightarrow> uuid list \<Rightarrow> effect list" where
  "engine_deletes client ids =
     map (\<lambda>memory_id. case mc_delete client memory_id of
                         Inl x \<Rightarrow> EngineDelete memory_id
                       | Inr u \<Rightarrow> EngineDelete memory_id) ids"

definition delete_history :: "User \<Rightarrow> uuid \<Rightarrow> MemoryStatusHistory" where
  "delete_history user memory_id =
     \<lparr>hist_memory_id = memory_id, hist_changed_by = usr_id user,
      hist_old_state = Some active, hist_new_state = deleted\<rparr>"

definition delete_log :: "App \<Rightarrow> uuid \<Rightarrow> MemoryAccessLog" where
  "delete_log app memory_id =
     \<lparr>log_memory_id = memory_id, log_app_id = app_id app, log_access_type = ''delete_all'',
      log_metadata = [(''operation'', PyStr ''bulk_delete'')]\<rparr>"

text \<open>
  The second loop. Assigning to an attribute of \<open>None\<close>, were \<open>first()\<close> to find
  no row, raises AttributeError.
\<close>

definition none_has_no_state :: string where
  "none_has_no_state =
     [CHR 0x27] @ ''NoneType'' @ [CHR 0x27] @ '' object has no attribute '' @
     [CHR 0x27] @ ''state'' @ [CHR 0x27]"

fun mark_deleted :: "env \<Rightarrow> User \<Rightarrow> App \<Rightarrow> ledger \<Rightarrow> uuid list \<Rightarrow> error + ledger" where
  "mark_deleted e user app db [] = Inr db"
| "mark_deleted e user app db (memory_id # rest) =
     (case query_memory_first db memory_id of
        None \<Rightarrow> Inl (AttributeError none_has_no_state)
      | Some m \<Rightarrow>
          mark_deleted e user app
            (db\<lparr>memories := update_first memory_id
                               (\<lambda>m. m\<lparr>mem_state := deleted, mem_deleted_at := Some (now e)\<rparr>)
                               (memories db),
                status_history := status_history db @ [delete_history user memory_id],
                access_logs := access_logs db @ [delete_log app memory_id]\<rparr>)
            rest)"

definition delete_all_memories ::
  "env \<Rightarrow> string option \<Rightarrow> string option \<Rightarrow> ledger \<Rightarrow> response \<times> ledger \<times> effect list" where
  "delete_all_memories e user_id_in client_name_in db =
     (let user_id = py_or user_id_in (DEFAULT_USER_ID e);
          client_name = py_or client_name_in (DEFAULT_CLIENT_NAME e)
      in case get_memory_client_safe e of
           None \<Rightarrow> (unavailable, db, [])
         | Some client \<Rightarrow>
             (let (db1, user, app) = get_user_and_app e db user_id client_name;
                  ids = accessible_memory_ids e db1 user app;
                  eff = OpenSession # engine_deletes client ids
              in case mark_deleted e user app db1 ids of
                   Inl x \<Rightarrow> (ErrorJson (''Error deleting memories: '' @ error_str x), db1, eff)
                 | Inr db2 \<Rightarrow>
                     (MessageJson ''Successfully deleted all memories'', db2, eff @ [Commit])))"

section \<open>Reading an engine entry's id\<close>

text \<open>
  The memory id of an engine entry, \<open>uuid.UUID(memory['id'])\<close>, where both the
  subscript and the conversion succeed.
\<close>

definition entry_uuid :: "env \<Rightarrow> pydict \<Rightarrow> uuid option" where
  "entry_uuid e m = (case map_of m ''id'' of None \<Rightarrow> None | Some s \<Rightarrow> uuid_of_string e s)"


section \<open>Concrete inputs\<close>

text \<open>
  A small installation on which the theorems below are run: UUIDs one to three with
  their decimal names, a user \<open>alice\<close> with one active and one paused app, an active
  and a deleted memory of hers, and engines with fixed answers.
\<close>

definition demo_uuid_of_string :: "string \<Rightarrow> uuid option" where
  "demo_uuid_of_string s =
     (if s = ''1'' then Some 1 else if s = ''2'' then Some 2
      else if s = ''3'' then Some 3 else None)"

definition demo_string_of_uuid :: "uuid \<Rightarrow> string" where
  "demo_string_of_uuid u = (if u = 1 then ''1'' else if u = 2 then ''2'' else ''3'')"

definition demo_user :: User where
  "demo_user = \<lparr>usr_id = 10, usr_user_id = ''alice''\<rparr>"

definition demo_app :: App where
  "demo_app = \<lparr>app_id = 20, app_owner_id = 10, app_name = ''cli'', app_is_active = True\<rparr>"

definition demo_paused_app :: App where
  "demo_paused_app = \<lparr>app_id = 21, app_owner_id = 10, app_name = ''old'', app_is_active = False\<rparr>"

definition demo_active_memory :: Memory where
  "demo_active_memory =
     \<lparr>mem_id = 1, mem_user_id = 10, mem_app_id = 20, mem_content = ''I like tea'',
      mem_state = active, mem_deleted_at = None\<rparr>"

definition demo_deleted_memory :: Memory where
  "demo_deleted_memory =
     \<lparr>mem_id = 2, mem_user_id = 10, mem_app_id = 20, mem_content = ''I like mate'',
      mem_state = deleted, mem_deleted_at = Some 5\<rparr>"

definition demo_db :: ledger where
  "demo_db =
     \<lparr>users = [demo_user], apps = [demo_app, demo_paused_app],
      memories = [demo_active_memory, demo_deleted_memory],
      status_history = [], access_logs = []\<rparr>"

definition demo_point :: "string \<Rightarrow> real \<Rightarrow> point" where
  "demo_point i sc =
     \<lparr>pt_id = i, pt_payload = [(''data'', ''I like tea''), (''user_id'', ''alice'')],
      pt_score = sc\<rparr>"

text \<open>A vector store holding points 1 and 3 that answers a query by its filter.\<close>

definition demo_client :: "pydict list \<Rightarrow> memory_client" where
  "demo_client results =
     \<lparr>mc_add = (\<lambda>t u m. Inr (ResultsDict results)),
      mc_get_all = (\<lambda>u. Inr (GetAllDict results)),
      mc_delete = (\<lambda>i. Inl (EngineError ''vector store is down'')),
      mc_embed = (\<lambda>q k. Inr [1]),
      mc_query_points =
        (\<lambda>emb f lim. Inr (take lim (filter (satisfies f)
                                       [demo_point ''1'' 0.9, demo_point ''3'' 0.4])))\<rparr>"

definition demo_env :: "pydict list \<Rightarrow> (Memory \<Rightarrow> bool) \<Rightarrow> env" where
  "demo_env results allowed =
     \<lparr>DEFAULT_USER_ID = ''alice'', DEFAULT_CLIENT_NAME = ''cli'',
      get_memory_client_safe = Some (demo_client results),
      check_memory_access_permissions = (\<lambda>db m a. allowed m),
      uuid_of_string = demo_uuid_of_string,
      string_of_uuid = demo_string_of_uuid,
      now = 7, new_user_key = 11, new_app_key = 22, autoflush = False\<rparr>"

definition event :: "string \<Rightarrow> string \<Rightarrow> pydict" where
  "event kind i = [(''id'', i), (''event'', kind), (''memory'', ''I like tea'')]"

definition listed :: "string \<Rightarrow> pydict" where
  "listed i = [(''id'', i), (''memory'', ''I like tea''), (''hash'', ''abc'')]"


section \<open>Identity resolution leaves the memory tables alone\<close>

lemma gua_memories:
  "get_user_and_app e db u c = (db1, user, app) \<Longrightarrow> memories db1 = memories db"
  by (auto simp: get_user_and_app_def Let_def split: option.splits prod.splits)

lemma gua_history:
  "get_user_and_app e db u c = (db1, user, app) \<Longrightarrow> status_history db1 = status_history db"
  by (auto simp: get_user_and_app_def Let_def split: option.splits prod.splits)

lemma gua_logs:
  "get_user_and_app e db u c = (db1, user, app) \<Longrightarrow> access_logs db1 = access_logs db"
  by (auto simp: get_user_and_app_def Let_def split: option.splits prod.splits)

lemma gua_paused_apps:
  "get_user_and_app e db u c = (db1, user, app) \<Longrightarrow> \<not> app_is_active app \<Longrightarrow> apps db1 = apps db"
  by (auto simp: get_user_and_app_def Let_def split: option.splits prod.splits)

lemma demo_gua:
  "get_user_and_app (demo_env rs al) demo_db ''alice'' ''cli'' = (demo_db, demo_user, demo_app)"
  by (simp add: get_user_and_app_def demo_db_def demo_user_def demo_app_def demo_paused_app_def)

lemma demo_gua_paused:
  "get_user_and_app (demo_env rs al) demo_db ''alice'' ''old'' =
     (demo_db, demo_user, demo_paused_app)"
  by (simp add: get_user_and_app_def demo_db_def demo_user_def demo_app_def demo_paused_app_def)

lemma demo_accessible_all:
  "accessible_memory_ids (demo_env rs (\<lambda>m. True)) demo_db demo_user demo_app = [1, 2]"
  by (simp add: accessible_memory_ids_def demo_env_def demo_db_def demo_user_def demo_app_def
      demo_active_memory_def demo_deleted_memory_def)

lemma demo_accessible_active:
  "accessible_memory_ids (demo_env rs (\<lambda>m. mem_state m = active)) demo_db demo_user demo_app = [1]"
  by (simp add: accessible_memory_ids_def demo_env_def demo_db_def demo_user_def demo_app_def
      demo_active_memory_def demo_deleted_memory_def)

lemmas demo_defs = demo_env_def demo_client_def demo_db_def demo_user_def demo_app_def
  demo_paused_app_def demo_active_memory_def demo_deleted_memory_def demo_point_def
  demo_uuid_of_string_def demo_string_of_uuid_def event_def listed_def

lemma demo_search:
  "search_memory (demo_env [] (\<lambda>m. True)) ''tea'' None None demo_db =
     (SearchJson [\<lparr>h_id = ''1'', h_memory = ''I like tea'', h_hash = None,
                   h_created_at = None, h_updated_at = None, h_score = 0.9\<rparr>],
      demo_db\<lparr>access_logs :=
        [\<lparr>log_memory_id = 1, log_app_id = 20, log_access_type = ''search'',
          log_metadata = [(''query'', PyStr ''tea''), (''score'', PyFloat 0.9),
                          (''hash'', PyNone)]\<rparr>]\<rparr>,
      [OpenSession, EngineEmbed ''tea'' ''search'',
       EngineQueryPoints [1]
         (Filter [FieldCondition ''user_id'' ''alice'', HasIdCondition [''1'', ''2'']]) 10,
       Commit])"
  by (simp add: search_memory_def get_user_and_app_def accessible_memory_ids_def py_or_def
      search_conditions_def to_hit_def getitem_def parse_uuid_def search_log_def opt_val_def
      demo_defs Let_def)

lemma demo_store_honours_filter:
  "\<forall>emb flt lim ps. mc_query_points (demo_client rs) emb flt lim = Inr ps
     \<longrightarrow> (\<forall>p \<in> set ps. satisfies flt p)"
  by (auto simp: demo_client_def dest!: in_set_takeD)

lemma demo_resolve:
  "get_memory_client_safe (demo_env rs al) = Some (demo_client rs)"
  "get_user_and_app (demo_env rs al) demo_db (py_or None (DEFAULT_USER_ID (demo_env rs al)))
     (py_or None (DEFAULT_CLIENT_NAME (demo_env rs al))) = (demo_db, demo_user, demo_app)"
  using demo_gua [of rs al] by (simp_all add: py_or_def demo_env_def)

lemma demo_sel:
  "now (demo_env rs al) = 7"
  "string_of_uuid (demo_env rs al) = demo_string_of_uuid"
  "uuid_of_string (demo_env rs al) = demo_uuid_of_string"
  "autoflush (demo_env rs al) = False"
  "status_history demo_db = []"
  "access_logs demo_db = []"
  "usr_id demo_user = 10"
  "app_id demo_app = 20"
  by (simp_all add: demo_env_def demo_db_def demo_user_def demo_app_def)

section \<open>Unavailable engine and paused app\<close>

text \<open>
  Claim C9. When the memory client is unavailable, each of the four handlers returns
  the error object with the message "Memory system is currently unavailable. Please
  try again later.", without opening a session or making any engine call (no effect
  at all) and with the ledger as it was.
\<close>

theorem C9_unavailable:
  assumes "get_memory_client_safe e = None"
  shows "add_memories e t u c db =
           (ErrorJson ''Memory system is currently unavailable. Please try again later.'', db, [])
       \<and> search_memory e q u c db =
           (ErrorJson ''Memory system is currently unavailable. Please try again later.'', db, [])
       \<and> list_memories e u c db =
           (ErrorJson ''Memory system is currently unavailable. Please try again later.'', db, [])
       \<and> delete_all_memories e u c db =
           (ErrorJson ''Memory system is currently unavailable. Please try again later.'', db, [])"
  using assms
  by (simp add: add_memories_def search_memory_def list_memories_def delete_all_memories_def
      unavailable_def Let_def)

theorem C9_unavailable_witness:
  "get_memory_client_safe (demo_env [] (\<lambda>m. True)\<lparr>get_memory_client_safe := None\<rparr>) = None
   \<and> add_memories (demo_env [] (\<lambda>m. True)\<lparr>get_memory_client_safe := None\<rparr>)
         ''I like tea'' None None demo_db =
       (ErrorJson ''Memory system is currently unavailable. Please try again later.'', demo_db, [])
   \<and> delete_all_memories (demo_env [] (\<lambda>m. True)\<lparr>get_memory_client_safe := None\<rparr>)
         None None demo_db =
       (ErrorJson ''Memory system is currently unavailable. Please try again later.'', demo_db, [])"
  using C9_unavailable [of "demo_env [] (\<lambda>m. True)\<lparr>get_memory_client_safe := None\<rparr>"
      "''I like tea''" None None demo_db]
  by simp

text \<open>
  Claim C8. When the resolved App is not active, \<open>add_memories\<close> returns the error
  object naming the paused app; its only effect is the opened session, so the
  engine's add is not invoked; and the Memory, history and access-log tables (and
  the App table) are those of the ledger before the call.
\<close>

theorem C8_paused:
  assumes "get_memory_client_safe e = Some client"
    and "get_user_and_app e db (py_or u (DEFAULT_USER_ID e)) (py_or c (DEFAULT_CLIENT_NAME e))
           = (db1, user, app)"
    and "\<not> app_is_active app"
  shows "add_memories e t u c db =
           (ErrorJson (''App '' @ app_name app @
              '' is currently paused on OpenMemory. Cannot create new memories.''),
            db1, [OpenSession])
       \<and> memories db1 = memories db
       \<and> status_history db1 = status_history db
       \<and> access_logs db1 = access_logs db
       \<and> apps db1 = apps db"
  using assms gua_memories[OF assms(2)] gua_history[OF assms(2)] gua_logs[OF assms(2)]
    gua_paused_apps[OF assms(2,3)]
  by (simp add: add_memories_def Let_def paused_message_def)

theorem C8_paused_witness:
  "add_memories (demo_env [event ''ADD'' ''3''] (\<lambda>m. True)) ''I like tea'' None (Some ''old'')
     demo_db =
     (ErrorJson ''App old is currently paused on OpenMemory. Cannot create new memories.'',
      demo_db, [OpenSession])"
proof -
  let ?e = "demo_env [event ''ADD'' ''3''] (\<lambda>m. True)"
  have c: "get_memory_client_safe ?e = Some (demo_client [event ''ADD'' ''3''])"
    by (simp add: demo_env_def)
  have g: "get_user_and_app ?e demo_db (py_or None (DEFAULT_USER_ID ?e))
             (py_or (Some ''old'') (DEFAULT_CLIENT_NAME ?e)) = (demo_db, demo_user, demo_paused_app)"
    using demo_gua_paused by (simp add: py_or_def demo_env_def)
  have p: "\<not> app_is_active demo_paused_app"
    by (simp add: demo_paused_app_def)
  show ?thesis
    using C8_paused [OF c g p, of "''I like tea''"] by (simp add: demo_paused_app_def)
qed

section \<open>search_memory\<close>

lemma to_hits_ids: "to_hits ps = Inr hs \<Longrightarrow> map h_id hs = map pt_id ps"
  by (induction ps arbitrary: hs) (auto simp: to_hit_def split: sum.splits)

lemma log_hits_rows:
  "log_hits e app q hs = Inr ls \<Longrightarrow>
     list_all2 (\<lambda>h l. \<exists>i. uuid_of_string e (h_id h) = Some i \<and> l = search_log app q i h) hs ls"
  by (induction hs arbitrary: ls) (auto simp: parse_uuid_def split: sum.splits option.splits)

lemma search_memory_success:
  assumes "get_memory_client_safe e = Some client"
    and "get_user_and_app e db (py_or u (DEFAULT_USER_ID e)) (py_or c (DEFAULT_CLIENT_NAME e))
           = (db1, user, app)"
    and "search_memory e q u c db = (SearchJson found, db2, eff)"
  shows "\<exists>emb points logs.
           mc_embed client q ''search'' = Inr emb
         \<and> mc_query_points client emb
             (Filter (search_conditions (py_or u (DEFAULT_USER_ID e))
                (map (string_of_uuid e) (accessible_memory_ids e db1 user app)))) 10 = Inr points
         \<and> to_hits points = Inr found
         \<and> log_hits e app q found = Inr logs
         \<and> db2 = db1\<lparr>access_logs := access_logs db1 @ logs\<rparr>
         \<and> eff = [OpenSession, EngineEmbed q ''search'',
                   EngineQueryPoints emb
                     (Filter (search_conditions (py_or u (DEFAULT_USER_ID e))
                        (map (string_of_uuid e) (accessible_memory_ids e db1 user app)))) 10,
                   Commit]"
  using assms
  by (auto simp: search_memory_def Let_def split: sum.splits)

text \<open>
  Claim C1. When the accessible id list is not empty, the vector query carries the
  filter whose conditions are the user id and exactly the accessible ids (as
  strings), with limit 10; a vector store that answers with points satisfying the
  filter it was given therefore yields no hit whose id is outside the accessible
  ids.
\<close>

theorem C1_search_within_accessible:
  assumes client: "get_memory_client_safe e = Some client"
    and gua: "get_user_and_app e db (py_or u (DEFAULT_USER_ID e)) (py_or c (DEFAULT_CLIENT_NAME e))
           = (db1, user, app)"
    and nonempty: "accessible_memory_ids e db1 user app \<noteq> []"
    and store: "\<forall>emb flt lim ps. mc_query_points client emb flt lim = Inr ps
                  \<longrightarrow> (\<forall>p \<in> set ps. satisfies flt p)"
    and res: "search_memory e q u c db = (SearchJson found, db2, eff)"
  shows "(\<forall>h \<in> set found.
            h_id h \<in> set (map (string_of_uuid e) (accessible_memory_ids e db1 user app)))
       \<and> (\<exists>emb. eff =
            [OpenSession, EngineEmbed q ''search'',
             EngineQueryPoints emb
               (Filter [FieldCondition ''user_id'' (py_or u (DEFAULT_USER_ID e)),
                        HasIdCondition
                          (map (string_of_uuid e) (accessible_memory_ids e db1 user app))])
               10,
             Commit])"
proof -
  let ?ids = "map (string_of_uuid e) (accessible_memory_ids e db1 user app)"
  let ?uid = "py_or u (DEFAULT_USER_ID e)"
  have cond: "search_conditions ?uid ?ids = [FieldCondition ''user_id'' ?uid, HasIdCondition ?ids]"
    using nonempty by (simp add: search_conditions_def)
  from search_memory_success [OF client gua res] obtain emb points logs where
    qp: "mc_query_points client emb (Filter (search_conditions ?uid ?ids)) 10 = Inr points"
    and th: "to_hits points = Inr found"
    and ef: "eff = [OpenSession, EngineEmbed q ''search'',
                    EngineQueryPoints emb (Filter (search_conditions ?uid ?ids)) 10, Commit]"
    by blast
  have "\<forall>p \<in> set points. satisfies (Filter (search_conditions ?uid ?ids)) p"
    using store qp by blast
  then have "\<forall>p \<in> set points. pt_id p \<in> set ?ids"
    by (simp add: cond)
  then have "set (map pt_id points) \<subseteq> set ?ids"
    by auto
  then have "set (map h_id found) \<subseteq> set ?ids"
    using to_hits_ids [OF th] by simp
  then have a: "\<forall>h \<in> set found. h_id h \<in> set ?ids"
    by auto
  show ?thesis
    using a ef cond by simp
qed

theorem C1_search_within_accessible_witness:
  "accessible_memory_ids (demo_env [] (\<lambda>m. True)) demo_db demo_user demo_app = [1, 2]
   \<and> h_id \<lparr>h_id = ''1'', h_memory = ''I like tea'', h_hash = None, h_created_at = None,
            h_updated_at = None, h_score = 0.9\<rparr>
       \<in> set (map (string_of_uuid (demo_env [] (\<lambda>m. True))) [1, 2])"
proof -
  let ?e = "demo_env [] (\<lambda>m. True)"
  have ne: "accessible_memory_ids ?e demo_db demo_user demo_app \<noteq> []"
    by (simp add: demo_accessible_all)
  show ?thesis
    using C1_search_within_accessible
      [OF demo_resolve(1) demo_resolve(2) ne demo_store_honours_filter demo_search]
    by (simp add: demo_accessible_all)
qed

text \<open>
  Claim C6. When \<open>search_memory\<close> returns a result list, the access-log table grows
  by one row per hit, in the order of the hits: the row has access type "search",
  the memory id that the hit's id parses to, and metadata holding the query text of
  the call and the score of that hit.
\<close>

theorem C6_search_logs:
  assumes res: "search_memory e q u c db = (SearchJson found, db2, eff)"
  shows "\<exists>new. access_logs db2 = access_logs db @ new
           \<and> length new = length found
           \<and> (\<forall>k < length found.
                 log_access_type (new ! k) = ''search''
               \<and> uuid_of_string e (h_id (found ! k)) = Some (log_memory_id (new ! k))
               \<and> map_of (log_metadata (new ! k)) ''query'' = Some (PyStr q)
               \<and> map_of (log_metadata (new ! k)) ''score'' = Some (PyFloat (h_score (found ! k))))"
proof -
  obtain client where client: "get_memory_client_safe e = Some client"
    using res by (cases "get_memory_client_safe e")
      (auto simp: search_memory_def Let_def unavailable_def)
  obtain db1 user app where gua:
    "get_user_and_app e db (py_or u (DEFAULT_USER_ID e)) (py_or c (DEFAULT_CLIENT_NAME e))
       = (db1, user, app)"
    by (metis prod_cases3)
  from search_memory_success [OF client gua res] obtain logs where
    lh: "log_hits e app q found = Inr logs"
    and d2: "db2 = db1\<lparr>access_logs := access_logs db1 @ logs\<rparr>"
    by blast
  have rows: "list_all2 (\<lambda>h l. \<exists>i. uuid_of_string e (h_id h) = Some i \<and> l = search_log app q i h)
                found logs"
    by (rule log_hits_rows [OF lh])
  have len: "length logs = length found"
    using rows by (simp add: list_all2_lengthD)
  have each: "\<forall>k < length found.
                 log_access_type (logs ! k) = ''search''
               \<and> uuid_of_string e (h_id (found ! k)) = Some (log_memory_id (logs ! k))
               \<and> map_of (log_metadata (logs ! k)) ''query'' = Some (PyStr q)
               \<and> map_of (log_metadata (logs ! k)) ''score'' = Some (PyFloat (h_score (found ! k)))"
  proof (intro allI impI)
    fix k assume "k < length found"
    then obtain i where "uuid_of_string e (h_id (found ! k)) = Some i"
        and "logs ! k = search_log app q i (found ! k)"
      using rows by (auto simp: list_all2_conv_all_nth)
    then show "log_access_type (logs ! k) = ''search''
               \<and> uuid_of_string e (h_id (found ! k)) = Some (log_memory_id (logs ! k))
               \<and> map_of (log_metadata (logs ! k)) ''query'' = Some (PyStr q)
               \<and> map_of (log_metadata (logs ! k)) ''score'' = Some (PyFloat (h_score (found ! k)))"
      by (simp add: search_log_def)
  qed
  have "access_logs db2 = access_logs db @ logs"
    using d2 gua_logs [OF gua] by simp
  then show ?thesis
    using len each by blast
qed


theorem C6_search_logs_witness:
  "\<exists>new. access_logs
            (demo_db\<lparr>access_logs :=
               [\<lparr>log_memory_id = 1, log_app_id = 20, log_access_type = ''search'',
                 log_metadata = [(''query'', PyStr ''tea''), (''score'', PyFloat 0.9),
                                 (''hash'', PyNone)]\<rparr>]\<rparr>) = access_logs demo_db @ new
         \<and> length new = 1
         \<and> log_access_type (new ! 0) = ''search''
         \<and> demo_uuid_of_string ''1'' = Some (log_memory_id (new ! 0))
         \<and> map_of (log_metadata (new ! 0)) ''query'' = Some (PyStr ''tea'')
         \<and> map_of (log_metadata (new ! 0)) ''score'' = Some (PyFloat 0.9)"
  using C6_search_logs [OF demo_search]
  by (simp add: demo_env_def)

section \<open>list_memories\<close>

lemma getitem_entry:
  "getitem m ''id'' = Inr s \<Longrightarrow> parse_uuid e s = Inr i \<Longrightarrow> entry_uuid e m = Some i"
  by (auto simp: getitem_def parse_uuid_def entry_uuid_def split: option.splits)

lemma filter_memories_result:
  "filter_memories e app ids ms = Inr (logs, kept) \<Longrightarrow>
     kept = filter (\<lambda>m. \<exists>i \<in> set ids. entry_uuid e m = Some i) ms
   \<and> list_all2 (\<lambda>m l. \<exists>i \<in> set ids. entry_uuid e m = Some i \<and> l = list_log app i m) kept logs"
proof (induction ms arbitrary: logs kept)
  case Nil
  then show ?case by simp
next
  case (Cons m ms)
  from Cons.prems obtain s i logs' kept' where
    g: "getitem m ''id'' = Inr s" and p: "parse_uuid e s = Inr i"
    and r: "filter_memories e app ids ms = Inr (logs', kept')"
    and k: "(logs, kept) = (if i \<in> set ids then (list_log app i m # logs', m # kept')
                            else (logs', kept'))"
    by (auto split: sum.splits if_splits)
  have eu: "entry_uuid e m = Some i"
    by (rule getitem_entry [OF g p])
  from Cons.IH [OF r] show ?case
    using k eu by (auto split: if_splits)
qed

lemma list_memories_success:
  assumes "get_memory_client_safe e = Some client"
    and "get_user_and_app e db (py_or u (DEFAULT_USER_ID e)) (py_or c (DEFAULT_CLIENT_NAME e))
           = (db1, user, app)"
    and "list_memories e u c db = (ListJson kept, db2, eff)"
  shows "\<exists>got logs.
           mc_get_all client (py_or u (DEFAULT_USER_ID e)) = Inr got
         \<and> filter_memories e app (accessible_memory_ids e db1 user app) (memories_list got)
             = Inr (logs, kept)
         \<and> db2 = db1\<lparr>access_logs := access_logs db1 @ logs\<rparr>
         \<and> eff = [OpenSession, EngineGetAll (py_or u (DEFAULT_USER_ID e)), Commit]"
  using assms
  by (auto simp: list_memories_def Let_def split: sum.splits)

text \<open>
  Claim C7, as amended. When \<open>list_memories\<close> returns a list, every entry of it has
  an id that parses to a member of the accessible id list, and the access-log table
  grows by one row of access type "list" per returned entry, in order, carrying that
  entry's memory id. When no two returned entries carry the same memory id, the list
  has no more entries than the accessible id list.
\<close>

theorem C7_list_within_accessible:
  assumes client: "get_memory_client_safe e = Some client"
    and gua: "get_user_and_app e db (py_or u (DEFAULT_USER_ID e)) (py_or c (DEFAULT_CLIENT_NAME e))
           = (db1, user, app)"
    and res: "list_memories e u c db = (ListJson kept, db2, eff)"
  shows "(\<forall>m \<in> set kept. \<exists>i \<in> set (accessible_memory_ids e db1 user app). entry_uuid e m = Some i)
       \<and> (\<exists>new. access_logs db2 = access_logs db @ new
              \<and> length new = length kept
              \<and> (\<forall>k < length kept.
                    log_access_type (new ! k) = ''list''
                  \<and> entry_uuid e (kept ! k) = Some (log_memory_id (new ! k))))
       \<and> (distinct (map (entry_uuid e) kept)
            \<longrightarrow> length kept \<le> length (accessible_memory_ids e db1 user app))"
proof -
  let ?ids = "accessible_memory_ids e db1 user app"
  from list_memories_success [OF client gua res] obtain got logs where
    fm: "filter_memories e app ?ids (memories_list got) = Inr (logs, kept)"
    and d2: "db2 = db1\<lparr>access_logs := access_logs db1 @ logs\<rparr>"
    by blast
  note fr = filter_memories_result [OF fm]
  note kept = fr [THEN conjunct1] and rows = fr [THEN conjunct2]
  have a: "\<forall>m \<in> set kept. \<exists>i \<in> set ?ids. entry_uuid e m = Some i"
    using kept by auto
  have len: "length logs = length kept"
    using rows by (simp add: list_all2_lengthD)
  have each: "\<forall>k < length kept.
                 log_access_type (logs ! k) = ''list''
               \<and> entry_uuid e (kept ! k) = Some (log_memory_id (logs ! k))"
  proof (intro allI impI)
    fix k assume "k < length kept"
    then obtain i where "entry_uuid e (kept ! k) = Some i" and "logs ! k = list_log app i (kept ! k)"
      using rows by (auto simp: list_all2_conv_all_nth)
    then show "log_access_type (logs ! k) = ''list''
               \<and> entry_uuid e (kept ! k) = Some (log_memory_id (logs ! k))"
      by (simp add: list_log_def)
  qed
  have "access_logs db2 = access_logs db @ logs"
    using d2 gua_logs [OF gua] by simp
  then have b: "\<exists>new. access_logs db2 = access_logs db @ new
              \<and> length new = length kept
              \<and> (\<forall>k < length kept.
                    log_access_type (new ! k) = ''list''
                  \<and> entry_uuid e (kept ! k) = Some (log_memory_id (new ! k)))"
    using len each by blast
  have c: "length kept \<le> length ?ids" if dist: "distinct (map (entry_uuid e) kept)"
  proof -
    have sub: "set (map (entry_uuid e) kept) \<subseteq> Some ` set ?ids"
      using a by auto
    have "length kept = card (set (map (entry_uuid e) kept))"
      using distinct_card [OF dist] by simp
    also have "\<dots> \<le> card (Some ` set ?ids)"
      using sub by (simp add: card_mono)
    also have "\<dots> \<le> card (set ?ids)"
      by (simp add: card_image_le)
    also have "\<dots> \<le> length ?ids"
      by (rule card_length)
    finally show ?thesis .
  qed
  show ?thesis
    using a b c by blast
qed

lemma demo_list:
  "list_memories (demo_env [listed ''1'', listed ''1'', listed ''3''] (\<lambda>m. mem_state m = active))
     None None demo_db =
     (ListJson [listed ''1'', listed ''1''],
      demo_db\<lparr>access_logs :=
        [\<lparr>log_memory_id = 1, log_app_id = 20, log_access_type = ''list'',
          log_metadata = [(''hash'', PyStr ''abc'')]\<rparr>,
         \<lparr>log_memory_id = 1, log_app_id = 20, log_access_type = ''list'',
          log_metadata = [(''hash'', PyStr ''abc'')]\<rparr>]\<rparr>,
      [OpenSession, EngineGetAll ''alice'', Commit])"
  by code_simp

text \<open>
  Claim C7, as stated. The count fails when the engine lists a memory twice: both
  entries pass the membership test, so two entries are returned for one accessible id.
\<close>

theorem C7_counterexample:
  "fst (list_memories (demo_env [listed ''1'', listed ''1'', listed ''3'']
          (\<lambda>m. mem_state m = active)) None None demo_db)
     = ListJson [listed ''1'', listed ''1'']
   \<and> accessible_memory_ids (demo_env [listed ''1'', listed ''1'', listed ''3'']
          (\<lambda>m. mem_state m = active)) demo_db demo_user demo_app = [1]
   \<and> \<not> length [listed ''1'', listed ''1'']
        \<le> length (accessible_memory_ids (demo_env [listed ''1'', listed ''1'', listed ''3'']
          (\<lambda>m. mem_state m = active)) demo_db demo_user demo_app)"
  by (simp add: demo_list demo_accessible_active)

lemma demo_list_single:
  "list_memories (demo_env [listed ''1'', listed ''3''] (\<lambda>m. mem_state m = active))
     None None demo_db =
     (ListJson [listed ''1''],
      demo_db\<lparr>access_logs :=
        [\<lparr>log_memory_id = 1, log_app_id = 20, log_access_type = ''list'',
          log_metadata = [(''hash'', PyStr ''abc'')]\<rparr>]\<rparr>,
      [OpenSession, EngineGetAll ''alice'', Commit])"
  by code_simp

theorem C7_list_within_accessible_witness:
  "entry_uuid (demo_env [listed ''1'', listed ''3''] (\<lambda>m. mem_state m = active)) (listed ''1'')
     = Some 1
   \<and> distinct (map (entry_uuid (demo_env [listed ''1'', listed ''3''] (\<lambda>m. mem_state m = active)))
        [listed ''1''])
   \<and> length [listed ''1'']
       \<le> length (accessible_memory_ids (demo_env [listed ''1'', listed ''3'']
            (\<lambda>m. mem_state m = active)) demo_db demo_user demo_app)"
  using C7_list_within_accessible [OF demo_resolve(1) demo_resolve(2) demo_list_single]
  by (simp add: demo_accessible_active entry_uuid_def demo_defs)

section \<open>delete_all_memories\<close>

lemma update_first_ids:
  "(\<And>m. mem_id (f m) = mem_id m) \<Longrightarrow> map mem_id (update_first i f ms) = map mem_id ms"
  by (induction ms) auto

lemma find_update_first_same:
  "find (\<lambda>m. mem_id m = i) ms = Some m \<Longrightarrow> (\<And>m. mem_id (f m) = mem_id m) \<Longrightarrow>
     find (\<lambda>m. mem_id m = i) (update_first i f ms) = Some (f m)"
  by (induction ms) (auto split: if_splits)

lemma find_update_first_other:
  "i \<noteq> j \<Longrightarrow> (\<And>m. mem_id (f m) = mem_id m) \<Longrightarrow>
     find (\<lambda>m. mem_id m = j) (update_first i f ms) = find (\<lambda>m. mem_id m = j) ms"
  by (induction ms) auto

lemma find_mem_id_Some:
  "i \<in> set (map mem_id ms) \<Longrightarrow> \<exists>m. find (\<lambda>m. mem_id m = i) ms = Some m"
  by (induction ms) auto

lemma engine_deletes_eq: "engine_deletes client ids = map EngineDelete ids"
  by (simp add: engine_deletes_def split: sum.splits)

lemma accessible_subset:
  "set (accessible_memory_ids e db user app) \<subseteq> set (map mem_id (memories db))"
  by (auto simp: accessible_memory_ids_def)

lemma accessible_distinct:
  "distinct (map mem_id (memories db)) \<Longrightarrow> distinct (accessible_memory_ids e db user app)"
  by (simp add: accessible_memory_ids_def distinct_map_filter)

lemma mark_deleted_result:
  "set ids \<subseteq> set (map mem_id (memories db)) \<Longrightarrow>
   \<exists>db2. mark_deleted e user app db ids = Inr db2
      \<and> map mem_id (memories db2) = map mem_id (memories db)
      \<and> users db2 = users db \<and> apps db2 = apps db
      \<and> status_history db2 = status_history db @ map (delete_history user) ids
      \<and> access_logs db2 = access_logs db @ map (delete_log app) ids
      \<and> (\<forall>i \<in> set ids. \<exists>m. query_memory_first db2 i = Some m \<and> mem_state m = deleted
                              \<and> mem_deleted_at m = Some (now e))
      \<and> (\<forall>j. j \<notin> set ids \<longrightarrow> query_memory_first db2 j = query_memory_first db j)
      \<and> (\<forall>j m. query_memory_first db j = Some m \<and> mem_state m = deleted
                 \<and> mem_deleted_at m = Some (now e) \<longrightarrow> query_memory_first db2 j = Some m)"
proof (induction ids arbitrary: db)
  case Nil
  then show ?case by simp
next
  case (Cons i ids)
  let ?f = "\<lambda>m. m\<lparr>mem_state := deleted, mem_deleted_at := Some (now e)\<rparr>"
  let ?db = "db\<lparr>memories := update_first i ?f (memories db),
                status_history := status_history db @ [delete_history user i],
                access_logs := access_logs db @ [delete_log app i]\<rparr>"
  have idp: "\<And>m. mem_id (?f m) = mem_id m" by simp
  from Cons.prems have "i \<in> set (map mem_id (memories db))" by simp
  then obtain m where m: "find (\<lambda>m. mem_id m = i) (memories db) = Some m"
    using find_mem_id_Some by blast
  have ids': "map mem_id (memories ?db) = map mem_id (memories db)"
    using update_first_ids [of ?f i "memories db"] by simp
  have sub: "set ids \<subseteq> set (map mem_id (memories ?db))"
    using Cons.prems ids' by simp
  from Cons.IH [OF sub] obtain db2 where
    r: "mark_deleted e user app ?db ids = Inr db2"
    and p1: "map mem_id (memories db2) = map mem_id (memories ?db)"
    and p2: "users db2 = users ?db \<and> apps db2 = apps ?db"
    and p3: "status_history db2 = status_history ?db @ map (delete_history user) ids"
    and p4: "access_logs db2 = access_logs ?db @ map (delete_log app) ids"
    and p5: "\<forall>i \<in> set ids. \<exists>m. query_memory_first db2 i = Some m \<and> mem_state m = deleted
                              \<and> mem_deleted_at m = Some (now e)"
    and p6: "\<forall>j. j \<notin> set ids \<longrightarrow> query_memory_first db2 j = query_memory_first ?db j"
    and p7: "\<forall>j m. query_memory_first ?db j = Some m \<and> mem_state m = deleted
                 \<and> mem_deleted_at m = Some (now e) \<longrightarrow> query_memory_first db2 j = Some m"
    by blast
  have run: "mark_deleted e user app db (i # ids) = Inr db2"
    using m r by (simp add: query_memory_first_def)
  have qi: "query_memory_first ?db i = Some (?f m)"
    using find_update_first_same [OF m idp] by (simp add: query_memory_first_def)
  have qo: "\<And>j. j \<noteq> i \<Longrightarrow> query_memory_first ?db j = query_memory_first db j"
    using find_update_first_other [of i _ ?f "memories db"] by (simp add: query_memory_first_def)
  have hi: "\<exists>m. query_memory_first db2 i = Some m \<and> mem_state m = deleted
                              \<and> mem_deleted_at m = Some (now e)"
  proof -
    have "query_memory_first db2 i = Some (?f m)"
      using p7 [rule_format, of i "?f m"] qi by simp
    then show ?thesis by simp
  qed
  have c6: "\<forall>j. j \<notin> set (i # ids) \<longrightarrow> query_memory_first db2 j = query_memory_first db j"
    using p6 qo by simp
  have c7: "\<forall>j m. query_memory_first db j = Some m \<and> mem_state m = deleted
                 \<and> mem_deleted_at m = Some (now e) \<longrightarrow> query_memory_first db2 j = Some m"
  proof (intro allI impI)
    fix j m' assume a: "query_memory_first db j = Some m' \<and> mem_state m' = deleted
                 \<and> mem_deleted_at m' = Some (now e)"
    show "query_memory_first db2 j = Some m'"
    proof (cases "j = i")
      case True
      then have "m' = m" using a m by (simp add: query_memory_first_def)
      then have "?f m = m'" using a by simp
      then show ?thesis using p7 [rule_format, of i m'] qi True a by simp
    next
      case False
      then show ?thesis using p7 [rule_format, of j m'] qo [OF False] a by simp
    qed
  qed
  show ?case
    using run p1 ids' p2 p3 p4 p5 hi c6 c7 by simp
qed


lemma filter_map_distinct_key:
  "distinct xs \<Longrightarrow> x \<in> set xs \<Longrightarrow> (\<And>y. g (f y) = y) \<Longrightarrow>
     filter (\<lambda>r. g r = x) (map f xs) = [f x]"
proof (induction xs)
  case Nil
  then show ?case by simp
next
  case (Cons a xs)
  show ?case
  proof (cases "a = x")
    case True
    then have "x \<notin> set xs" using Cons.prems(1) by simp
    then have "filter (\<lambda>r. g r = x) (map f xs) = []"
      using Cons.prems(3) by (auto simp: filter_empty_conv)
    then show ?thesis using True Cons.prems(3) by simp
  next
    case False
    then have "x \<in> set xs" using Cons.prems(2) by simp
    then show ?thesis using Cons False by simp
  qed
qed

lemma delete_all_success:
  assumes "get_memory_client_safe e = Some client"
    and "get_user_and_app e db (py_or u (DEFAULT_USER_ID e)) (py_or c (DEFAULT_CLIENT_NAME e))
           = (db1, user, app)"
  shows "\<exists>db2. delete_all_memories e u c db =
           (MessageJson ''Successfully deleted all memories'', db2,
            OpenSession # map EngineDelete (accessible_memory_ids e db1 user app) @ [Commit])
         \<and> mark_deleted e user app db1 (accessible_memory_ids e db1 user app) = Inr db2"
proof -
  have sub: "set (accessible_memory_ids e db1 user app) \<subseteq> set (map mem_id (memories db1))"
    by (rule accessible_subset)
  from mark_deleted_result [OF sub, where e = e and user = user and app = app]
  obtain db2 where "mark_deleted e user app db1 (accessible_memory_ids e db1 user app) = Inr db2"
    by blast
  then show ?thesis
    using assms by (simp add: delete_all_memories_def Let_def engine_deletes_eq)
qed

text \<open>
  Claim C5. Whatever the engine's delete does for each id (the client is arbitrary,
  so any of its calls may raise), \<open>delete_all_memories\<close> attempts the engine delete
  for every accessible id, succeeds, and for every accessible id leaves the ledger
  row in state deleted with \<open>deleted_at\<close> set, having written exactly one history
  row (active to deleted) and exactly one access-log row (access type "delete_all")
  for that id. Memory ids are the table's primary key.
\<close>

theorem C5_delete_all:
  assumes client: "get_memory_client_safe e = Some client"
    and gua: "get_user_and_app e db (py_or u (DEFAULT_USER_ID e)) (py_or c (DEFAULT_CLIENT_NAME e))
           = (db1, user, app)"
    and keys: "distinct (map mem_id (memories db))"
    and acc: "i \<in> set (accessible_memory_ids e db1 user app)"
  shows "\<exists>db2. delete_all_memories e u c db =
           (MessageJson ''Successfully deleted all memories'', db2,
            OpenSession # map EngineDelete (accessible_memory_ids e db1 user app) @ [Commit])
       \<and> (\<exists>m. query_memory_first db2 i = Some m \<and> mem_state m = deleted
              \<and> mem_deleted_at m = Some (now e))
       \<and> filter (\<lambda>h. hist_memory_id h = i)
            (drop (length (status_history db)) (status_history db2))
           = [\<lparr>hist_memory_id = i, hist_changed_by = usr_id user,
               hist_old_state = Some active, hist_new_state = deleted\<rparr>]
       \<and> filter (\<lambda>l. log_memory_id l = i)
            (drop (length (access_logs db)) (access_logs db2))
           = [\<lparr>log_memory_id = i, log_app_id = app_id app, log_access_type = ''delete_all'',
               log_metadata = [(''operation'', PyStr ''bulk_delete'')]\<rparr>]"
proof -
  let ?ids = "accessible_memory_ids e db1 user app"
  from delete_all_success [OF client gua] obtain db2 where
    res: "delete_all_memories e u c db =
           (MessageJson ''Successfully deleted all memories'', db2,
            OpenSession # map EngineDelete ?ids @ [Commit])"
    and md: "mark_deleted e user app db1 ?ids = Inr db2"
    by blast
  have sub: "set ?ids \<subseteq> set (map mem_id (memories db1))"
    by (rule accessible_subset)
  from mark_deleted_result [OF sub, where e = e and user = user and app = app] md have
    h: "status_history db2 = status_history db1 @ map (delete_history user) ?ids"
    and l: "access_logs db2 = access_logs db1 @ map (delete_log app) ?ids"
    and st: "\<forall>i \<in> set ?ids. \<exists>m. query_memory_first db2 i = Some m \<and> mem_state m = deleted
                              \<and> mem_deleted_at m = Some (now e)"
    by auto
  have dist: "distinct ?ids"
    using keys gua_memories [OF gua] accessible_distinct [of db1 e user app] by simp
  have hd: "drop (length (status_history db)) (status_history db2) = map (delete_history user) ?ids"
    using h gua_history [OF gua] by simp
  have ld: "drop (length (access_logs db)) (access_logs db2) = map (delete_log app) ?ids"
    using l gua_logs [OF gua] by simp
  have hf: "filter (\<lambda>h. hist_memory_id h = i) (map (delete_history user) ?ids)
              = [delete_history user i]"
    by (rule filter_map_distinct_key [OF dist acc]) (simp add: delete_history_def)
  have lf: "filter (\<lambda>l. log_memory_id l = i) (map (delete_log app) ?ids) = [delete_log app i]"
    by (rule filter_map_distinct_key [OF dist acc]) (simp add: delete_log_def)
  show ?thesis
    using res st acc hd ld hf lf by (simp add: delete_history_def delete_log_def)
qed

lemma demo_delete_all:
  "delete_all_memories (demo_env [] (\<lambda>m. True)) None None demo_db =
     (MessageJson ''Successfully deleted all memories'',
      demo_db\<lparr>memories :=
         [demo_active_memory\<lparr>mem_state := deleted, mem_deleted_at := Some 7\<rparr>,
          demo_deleted_memory\<lparr>mem_state := deleted, mem_deleted_at := Some 7\<rparr>],
        status_history :=
         [\<lparr>hist_memory_id = 1, hist_changed_by = 10, hist_old_state = Some active,
           hist_new_state = deleted\<rparr>,
          \<lparr>hist_memory_id = 2, hist_changed_by = 10, hist_old_state = Some active,
           hist_new_state = deleted\<rparr>],
        access_logs :=
         [\<lparr>log_memory_id = 1, log_app_id = 20, log_access_type = ''delete_all'',
           log_metadata = [(''operation'', PyStr ''bulk_delete'')]\<rparr>,
          \<lparr>log_memory_id = 2, log_app_id = 20, log_access_type = ''delete_all'',
           log_metadata = [(''operation'', PyStr ''bulk_delete'')]\<rparr>]\<rparr>,
      [OpenSession, EngineDelete 1, EngineDelete 2, Commit])"
  by code_simp

theorem C5_delete_all_witness:
  "mc_delete (demo_client []) 1 = Inl (EngineError ''vector store is down'')
   \<and> (\<exists>db2. delete_all_memories (demo_env [] (\<lambda>m. True)) None None demo_db =
           (MessageJson ''Successfully deleted all memories'', db2,
            [OpenSession, EngineDelete 1, EngineDelete 2, Commit])
       \<and> (\<exists>m. query_memory_first db2 1 = Some m \<and> mem_state m = deleted
              \<and> mem_deleted_at m = Some 7)
       \<and> filter (\<lambda>h. hist_memory_id h = 1) (status_history db2)
           = [\<lparr>hist_memory_id = 1, hist_changed_by = 10,
               hist_old_state = Some active, hist_new_state = deleted\<rparr>]
       \<and> filter (\<lambda>l. log_memory_id l = 1) (access_logs db2)
           = [\<lparr>log_memory_id = 1, log_app_id = 20, log_access_type = ''delete_all'',
               log_metadata = [(''operation'', PyStr ''bulk_delete'')]\<rparr>])"
proof -
  let ?e = "demo_env [] (\<lambda>m. True)"
  have keys: "distinct (map mem_id (memories demo_db))"
    by (simp add: demo_defs)
  have acc: "1 \<in> set (accessible_memory_ids ?e demo_db demo_user demo_app)"
    by (simp add: demo_accessible_all)
  have "mc_delete (demo_client []) 1 = Inl (EngineError ''vector store is down'')"
    by (simp add: demo_client_def)
  then show ?thesis
    using C5_delete_all [OF demo_resolve(1) demo_resolve(2) keys acc]
    by (simp add: demo_accessible_all demo_sel)
qed

section \<open>The accessible id list\<close>

text \<open>
  Claim C2, as amended. In each of the three handlers the accessible id list is
  computed from every Memory row owned by the resolved user, whatever its state,
  keeping the ids of those for which the permission predicate holds; a deleted row
  is left out only when the predicate rejects it. The list is what the search
  filter carries, what the listing is filtered by, and what is deleted.
\<close>

theorem C2_accessible_ids:
  assumes client: "get_memory_client_safe e = Some client"
    and gua: "get_user_and_app e db (py_or u (DEFAULT_USER_ID e)) (py_or c (DEFAULT_CLIENT_NAME e))
           = (db1, user, app)"
  shows "accessible_memory_ids e db1 user app =
           map mem_id
             (filter (\<lambda>m. mem_user_id m = usr_id user
                          \<and> check_memory_access_permissions e db1 m (app_id app))
                (memories db))
       \<and> (\<forall>found db2 eff. search_memory e q u c db = (SearchJson found, db2, eff) \<longrightarrow>
            (\<exists>emb. EngineQueryPoints emb
                     (Filter (search_conditions (py_or u (DEFAULT_USER_ID e))
                        (map (string_of_uuid e) (accessible_memory_ids e db1 user app)))) 10
                   \<in> set eff))
       \<and> (\<forall>kept db2 eff. list_memories e u c db = (ListJson kept, db2, eff) \<longrightarrow>
            (\<exists>got. mc_get_all client (py_or u (DEFAULT_USER_ID e)) = Inr got
                 \<and> kept = filter (\<lambda>m. \<exists>i \<in> set (accessible_memory_ids e db1 user app).
                                         entry_uuid e m = Some i) (memories_list got)))
       \<and> (\<exists>db2. delete_all_memories e u c db =
            (MessageJson ''Successfully deleted all memories'', db2,
             OpenSession # map EngineDelete (accessible_memory_ids e db1 user app) @ [Commit])
           \<and> status_history db2 =
               status_history db @ map (delete_history user) (accessible_memory_ids e db1 user app))"
proof -
  let ?ids = "accessible_memory_ids e db1 user app"
  have a: "?ids = map mem_id
             (filter (\<lambda>m. mem_user_id m = usr_id user
                          \<and> check_memory_access_permissions e db1 m (app_id app))
                (memories db))"
    using gua_memories [OF gua] by (simp add: accessible_memory_ids_def)
  have b: "\<exists>emb. EngineQueryPoints emb
                     (Filter (search_conditions (py_or u (DEFAULT_USER_ID e))
                        (map (string_of_uuid e) ?ids))) 10 \<in> set eff"
    if "search_memory e q u c db = (SearchJson found, db2, eff)" for found db2 eff
    using search_memory_success [OF client gua that] by auto
  have c: "\<exists>got. mc_get_all client (py_or u (DEFAULT_USER_ID e)) = Inr got
                 \<and> kept = filter (\<lambda>m. \<exists>i \<in> set ?ids. entry_uuid e m = Some i) (memories_list got)"
    if "list_memories e u c db = (ListJson kept, db2, eff)" for kept db2 eff
  proof -
    from list_memories_success [OF client gua that] obtain got logs where
      g: "mc_get_all client (py_or u (DEFAULT_USER_ID e)) = Inr got"
      and fm: "filter_memories e app ?ids (memories_list got) = Inr (logs, kept)"
      by blast
    show ?thesis
      using g filter_memories_result [OF fm, THEN conjunct1] by blast
  qed
  have d: "\<exists>db2. delete_all_memories e u c db =
            (MessageJson ''Successfully deleted all memories'', db2,
             OpenSession # map EngineDelete ?ids @ [Commit])
           \<and> status_history db2 = status_history db @ map (delete_history user) ?ids"
  proof -
    from delete_all_success [OF client gua] obtain db2 where
      res: "delete_all_memories e u c db =
           (MessageJson ''Successfully deleted all memories'', db2,
            OpenSession # map EngineDelete ?ids @ [Commit])"
      and md: "mark_deleted e user app db1 ?ids = Inr db2"
      by blast
    have sub: "set ?ids \<subseteq> set (map mem_id (memories db1))"
      by (rule accessible_subset)
    from mark_deleted_result [OF sub, where e = e and user = user and app = app] md
    have "status_history db2 = status_history db1 @ map (delete_history user) ?ids"
      by auto
    then show ?thesis
      using res gua_history [OF gua] by simp
  qed
  show ?thesis
    using a b c d by blast
qed

text \<open>
  Claim C2, as stated. The rows are not restricted to the active ones: with a predicate that admits it,
  a deleted memory of the user is in the accessible list, is named in the search
  filter and is deleted again.
\<close>

theorem C2_counterexample:
  "mem_state demo_deleted_memory = deleted
   \<and> demo_deleted_memory \<in> set (memories demo_db)
   \<and> mem_id demo_deleted_memory
       \<in> set (accessible_memory_ids (demo_env [] (\<lambda>m. True)) demo_db demo_user demo_app)
   \<and> snd (snd (delete_all_memories (demo_env [] (\<lambda>m. True)) None None demo_db))
       = [OpenSession, EngineDelete 1, EngineDelete (mem_id demo_deleted_memory), Commit]
   \<and> snd (snd (search_memory (demo_env [] (\<lambda>m. True)) ''tea'' None None demo_db))
       = [OpenSession, EngineEmbed ''tea'' ''search'',
          EngineQueryPoints [1]
            (Filter [FieldCondition ''user_id'' ''alice'',
                     HasIdCondition [''1'', demo_string_of_uuid (mem_id demo_deleted_memory)]]) 10,
          Commit]"
  by (simp add: demo_accessible_all demo_delete_all demo_search)
    (simp add: demo_deleted_memory_def demo_db_def demo_string_of_uuid_def)

theorem C2_accessible_ids_witness:
  "accessible_memory_ids (demo_env [] (\<lambda>m. True)) demo_db demo_user demo_app =
           map mem_id
             (filter (\<lambda>m. mem_user_id m = usr_id demo_user
                 \<and> check_memory_access_permissions (demo_env [] (\<lambda>m. True)) demo_db m
                     (app_id demo_app))
                (memories demo_db))
   \<and> (\<exists>db2. delete_all_memories (demo_env [] (\<lambda>m. True)) None None demo_db =
            (MessageJson ''Successfully deleted all memories'', db2,
             [OpenSession, EngineDelete 1, EngineDelete 2, Commit]))"
  using C2_accessible_ids [OF demo_resolve(1) demo_resolve(2), of "[]" "\<lambda>m. True" "''tea''"]
  by (simp add: demo_accessible_all) blast

section \<open>add_memories: one event\<close>

lemma find_append_found:
  "find P xs = Some x \<Longrightarrow> find P (xs @ ys) = Some x"
  by (induction xs) (auto split: if_splits)

lemma find_append_missing:
  "find P xs = None \<Longrightarrow> find P (xs @ ys) = find P ys"
  by (induction xs) (auto split: if_splits)

lemma query_set_memory_same:
  "query_memory_first (s_db s) i = Some m \<Longrightarrow> (\<And>m. mem_id (f m) = mem_id m) \<Longrightarrow>
     query_memory_first (s_db (set_memory s i f)) i = Some (f m)"
  by (simp add: query_memory_first_def set_memory_def find_update_first_same)

lemma query_set_memory_other:
  "i \<noteq> j \<Longrightarrow> (\<And>m. mem_id (f m) = mem_id m) \<Longrightarrow>
     query_memory_first (s_db (set_memory s i f)) j = query_memory_first (s_db s) j"
  by (simp add: query_memory_first_def set_memory_def find_update_first_other)

lemma query_add_history [simp]:
  "query_memory_first (s_db (db_add_history s h)) j = query_memory_first (s_db s) j"
  by (simp add: query_memory_first_def db_add_history_def)

lemma query_add_memory_found:
  "query_memory_first (s_db s) j = Some m \<Longrightarrow>
     query_memory_first (s_db (db_add_memory e s n)) j = Some m"
  by (simp add: query_memory_first_def db_add_memory_def find_append_found)

lemma getitem_map_of: "getitem d k = Inr v \<Longrightarrow> map_of d k = Some v"
  by (simp add: getitem_def split: option.splits)

lemma process_result_ids:
  assumes "process_result e user app s r = Inr s1"
  shows "\<exists>id_str i ev. getitem r ''id'' = Inr id_str \<and> parse_uuid e id_str = Inr i
           \<and> getitem r ''event'' = Inr ev"
proof -
  obtain id_str where g: "getitem r ''id'' = Inr id_str"
    using assms by (cases "getitem r ''id''") (simp_all add: process_result_def)
  obtain i where p: "parse_uuid e id_str = Inr i"
    using assms g by (cases "parse_uuid e id_str") (simp_all add: process_result_def)
  obtain ev where v: "getitem r ''event'' = Inr ev"
    using assms g p by (cases "getitem r ''event''") (simp_all add: process_result_def Let_def)
  show ?thesis using g p v by blast
qed

lemma process_result_add:
  assumes "getitem r ''id'' = Inr id_str" and "parse_uuid e id_str = Inr i"
    and "getitem r ''event'' = Inr ''ADD''"
  shows "process_result e user app s r =
     (case getitem r ''memory'' of
        Inl x \<Rightarrow> Inl x
      | Inr content \<Rightarrow>
          (case query_memory_first (s_db s) i of
              None \<Rightarrow>
                Inr (db_add_history
                       (db_add_memory e s
                          \<lparr>mem_id = i, mem_user_id = usr_id user, mem_app_id = app_id app,
                           mem_content = content, mem_state = active, mem_deleted_at = None\<rparr>)
                       \<lparr>hist_memory_id = i, hist_changed_by = usr_id user,
                        hist_old_state = Some deleted, hist_new_state = active\<rparr>)
            | Some m \<Rightarrow>
                Inr (db_add_history
                       (set_memory s i (\<lambda>m. m\<lparr>mem_state := active, mem_content := content\<rparr>))
                       \<lparr>hist_memory_id = i, hist_changed_by = usr_id user,
                        hist_old_state = Some deleted, hist_new_state = active\<rparr>)))"
  using assms
  by (simp add: process_result_def Let_def add_history_def split: sum.splits option.splits)

lemma process_result_delete:
  assumes "getitem r ''id'' = Inr id_str" and "parse_uuid e id_str = Inr i"
    and "getitem r ''event'' = Inr ''DELETE''"
  shows "process_result e user app s r =
     (case query_memory_first (s_db s) i of
           Some m \<Rightarrow>
             Inr (db_add_history
                    (set_memory s i (\<lambda>m. m\<lparr>mem_state := deleted, mem_deleted_at := Some (now e)\<rparr>))
                    \<lparr>hist_memory_id = i, hist_changed_by = usr_id user,
                     hist_old_state = Some active, hist_new_state = deleted\<rparr>)
         | None \<Rightarrow> Inr s)"
  using assms
  by (simp add: process_result_def Let_def split: option.splits)

lemma process_result_other:
  assumes "getitem r ''id'' = Inr id_str" and "parse_uuid e id_str = Inr i"
    and "getitem r ''event'' = Inr ev" and "ev \<noteq> ''ADD''" and "ev \<noteq> ''DELETE''"
  shows "process_result e user app s r = Inr s"
  using assms
  by (simp add: process_result_def Let_def)


lemma query_add_memory_other:
  "mem_id n \<noteq> j \<Longrightarrow>
     query_memory_first (s_db (db_add_memory e s n)) j = query_memory_first (s_db s) j"
proof (cases "find (\<lambda>m. mem_id m = j) (memories (s_db s))")
  case None
  assume "mem_id n \<noteq> j"
  then show ?thesis
    using None by (simp add: query_memory_first_def db_add_memory_def find_append_missing)
next
  case (Some m)
  then show ?thesis
    by (simp add: query_memory_first_def db_add_memory_def find_append_found)
qed

lemma entry_uuid_parts:
  "getitem r ''id'' = Inr id_str \<Longrightarrow> parse_uuid e id_str = Inr i \<Longrightarrow> entry_uuid e r = Some i"
  by (rule getitem_entry)

text \<open>An event leaves the rows of every other id as the query sees them.\<close>

lemma process_result_query_other:
  assumes run: "process_result e user app s r = Inr s1"
    and other: "entry_uuid e r \<noteq> Some j"
  shows "query_memory_first (s_db s1) j = query_memory_first (s_db s) j"
proof -
  from process_result_ids [OF run] obtain id_str i ev where
    g: "getitem r ''id'' = Inr id_str" and p: "parse_uuid e id_str = Inr i"
    and v: "getitem r ''event'' = Inr ev"
    by blast
  have ij: "i \<noteq> j"
    using other entry_uuid_parts [OF g p] by auto
  consider (add) "ev = ''ADD''" | (del) "ev = ''DELETE''" | (none) "ev \<noteq> ''ADD''" "ev \<noteq> ''DELETE''"
    by blast
  then show ?thesis
  proof cases
    case add
    obtain content where c: "getitem r ''memory'' = Inr content"
      using run process_result_add [OF g p, of user app s] v add
      by (cases "getitem r ''memory''") simp_all
    show ?thesis
    proof (cases "query_memory_first (s_db s) i")
      case None
      then show ?thesis
        using run process_result_add [OF g p, of user app s] v add c ij
        by (auto simp: query_add_memory_other)
    next
      case (Some m)
      then show ?thesis
        using run process_result_add [OF g p, of user app s] v add c ij
        by (auto simp: query_set_memory_other)
    qed
  next
    case del
    show ?thesis
    proof (cases "query_memory_first (s_db s) i")
      case None
      then show ?thesis
        using run process_result_delete [OF g p, of user app s] v del by simp
    next
      case (Some m)
      then show ?thesis
        using run process_result_delete [OF g p, of user app s] v del ij
        by (auto simp: query_set_memory_other)
    qed
  next
    case none
    then show ?thesis
      using run process_result_other [OF g p v, of user app s] by simp
  qed
qed

text \<open>An event on a row that exists: what the row is afterwards.\<close>

lemma process_result_query_same:
  assumes run: "process_result e user app s r = Inr s1"
    and same: "entry_uuid e r = Some j"
    and row: "query_memory_first (s_db s) j = Some m"
  shows "\<exists>ev. map_of r ''event'' = Some ev \<and>
          (if ev = ''ADD'' then
             (\<exists>content. query_memory_first (s_db s1) j
                          = Some (m\<lparr>mem_state := active, mem_content := content\<rparr>))
           else if ev = ''DELETE'' then
             query_memory_first (s_db s1) j
               = Some (m\<lparr>mem_state := deleted, mem_deleted_at := Some (now e)\<rparr>)
             \<and> status_history (s_db s1) = status_history (s_db s) @
                 [\<lparr>hist_memory_id = j, hist_changed_by = usr_id user,
                   hist_old_state = Some active, hist_new_state = deleted\<rparr>]
           else s1 = s)"
proof -
  from process_result_ids [OF run] obtain id_str i ev where
    g: "getitem r ''id'' = Inr id_str" and p: "parse_uuid e id_str = Inr i"
    and v: "getitem r ''event'' = Inr ev"
    by blast
  have ij: "i = j"
    using same entry_uuid_parts [OF g p] by auto
  have mv: "map_of r ''event'' = Some ev"
    by (rule getitem_map_of [OF v])
  consider (add) "ev = ''ADD''" | (del) "ev = ''DELETE''" | (none) "ev \<noteq> ''ADD''" "ev \<noteq> ''DELETE''"
    by blast
  then show ?thesis
  proof cases
    case add
    obtain content where c: "getitem r ''memory'' = Inr content"
      using run process_result_add [OF g p, of user app s] v add
      by (cases "getitem r ''memory''") simp_all
    have "s1 = db_add_history
                 (set_memory s j (\<lambda>m. m\<lparr>mem_state := active, mem_content := content\<rparr>))
                 \<lparr>hist_memory_id = j, hist_changed_by = usr_id user,
                  hist_old_state = Some deleted, hist_new_state = active\<rparr>"
      using run process_result_add [OF g p, of user app s] v add c ij row by simp
    then have "query_memory_first (s_db s1) j
                 = Some (m\<lparr>mem_state := active, mem_content := content\<rparr>)"
      using query_set_memory_same [OF row, of "\<lambda>m. m\<lparr>mem_state := active, mem_content := content\<rparr>"]
      by simp
    then show ?thesis using mv add by auto
  next
    case del
    have s1: "s1 = db_add_history
                 (set_memory s j (\<lambda>m. m\<lparr>mem_state := deleted, mem_deleted_at := Some (now e)\<rparr>))
                 \<lparr>hist_memory_id = j, hist_changed_by = usr_id user,
                  hist_old_state = Some active, hist_new_state = deleted\<rparr>"
      using run process_result_delete [OF g p, of user app s] v del ij row by simp
    then have q: "query_memory_first (s_db s1) j
                 = Some (m\<lparr>mem_state := deleted, mem_deleted_at := Some (now e)\<rparr>)"
      using query_set_memory_same [OF row,
          of "\<lambda>m. m\<lparr>mem_state := deleted, mem_deleted_at := Some (now e)\<rparr>"]
      by simp
    have h: "status_history (s_db s1) = status_history (s_db s) @
                 [\<lparr>hist_memory_id = j, hist_changed_by = usr_id user,
                   hist_old_state = Some active, hist_new_state = deleted\<rparr>]"
      using s1 by (simp add: db_add_history_def set_memory_def)
    show ?thesis using mv del q h by simp
  next
    case none
    then show ?thesis
      using run process_result_other [OF g p v, of user app s] mv by simp
  qed
qed

text \<open>History rows are only ever appended.\<close>

lemma process_result_history:
  assumes run: "process_result e user app s r = Inr s1"
  shows "\<exists>ext. status_history (s_db s1) = status_history (s_db s) @ ext"
proof -
  from process_result_ids [OF run] obtain id_str i ev where
    g: "getitem r ''id'' = Inr id_str" and p: "parse_uuid e id_str = Inr i"
    and v: "getitem r ''event'' = Inr ev"
    by blast
  consider (add) "ev = ''ADD''" | (del) "ev = ''DELETE''" | (none) "ev \<noteq> ''ADD''" "ev \<noteq> ''DELETE''"
    by blast
  then show ?thesis
  proof cases
    case add
    obtain content where c: "getitem r ''memory'' = Inr content"
      using run process_result_add [OF g p, of user app s] v add
      by (cases "getitem r ''memory''") simp_all
    show ?thesis
      using run process_result_add [OF g p, of user app s] v add c
      by (cases "query_memory_first (s_db s) i")
        (auto simp: db_add_history_def set_memory_def db_add_memory_def)
  next
    case del
    show ?thesis
      using run process_result_delete [OF g p, of user app s] v del
      by (cases "query_memory_first (s_db s) i")
        (auto simp: db_add_history_def set_memory_def)
  next
    case none
    then show ?thesis
      using run process_result_other [OF g p v, of user app s] by simp
  qed
qed

section \<open>add_memories: the loop and the commit\<close>

lemma process_result_row:
  assumes run: "process_result e user app s r = Inr s1"
    and row: "query_memory_first (s_db s) j = Some m"
  shows "\<exists>m1. query_memory_first (s_db s1) j = Some m1
            \<and> (mem_deleted_at m = Some (now e) \<longrightarrow> mem_deleted_at m1 = Some (now e))
            \<and> (mem_deleted_at m = Some (now e) \<and> mem_state m = deleted
                 \<and> \<not> (entry_uuid e r = Some j \<and> map_of r ''event'' = Some ''ADD'')
                \<longrightarrow> mem_state m1 = deleted)"
proof (cases "entry_uuid e r = Some j")
  case False
  then show ?thesis
    using process_result_query_other [OF run False] row by simp
next
  case True
  from process_result_query_same [OF run True row] obtain ev where
    ev: "map_of r ''event'' = Some ev"
    and eff: "if ev = ''ADD'' then
             (\<exists>content. query_memory_first (s_db s1) j
                          = Some (m\<lparr>mem_state := active, mem_content := content\<rparr>))
           else if ev = ''DELETE'' then
             query_memory_first (s_db s1) j
               = Some (m\<lparr>mem_state := deleted, mem_deleted_at := Some (now e)\<rparr>)
             \<and> status_history (s_db s1) = status_history (s_db s) @
                 [\<lparr>hist_memory_id = j, hist_changed_by = usr_id user,
                   hist_old_state = Some active, hist_new_state = deleted\<rparr>]
           else s1 = s"
    by blast
  consider (add) "ev = ''ADD''" | (del) "ev = ''DELETE''" | (none) "ev \<noteq> ''ADD''" "ev \<noteq> ''DELETE''"
    by blast
  then show ?thesis
  proof cases
    case add
    then show ?thesis using eff ev True by auto
  next
    case del
    then show ?thesis using eff by auto
  next
    case none
    then show ?thesis using eff row by auto
  qed
qed

lemma process_results_append:
  "process_results e user app s (xs @ ys) =
     (case process_results e user app s xs of
        Inl x \<Rightarrow> Inl x
      | Inr s1 \<Rightarrow> process_results e user app s1 ys)"
  by (induction xs arbitrary: s) (auto split: sum.splits)

lemma process_results_history:
  "process_results e user app s rs = Inr s1 \<Longrightarrow>
     \<exists>ext. status_history (s_db s1) = status_history (s_db s) @ ext"
proof (induction rs arbitrary: s)
  case Nil
  then show ?case by simp
next
  case (Cons r rs)
  from Cons.prems obtain s' where
    a: "process_result e user app s r = Inr s'" and b: "process_results e user app s' rs = Inr s1"
    by (auto split: sum.splits)
  from process_result_history [OF a] obtain x where
    "status_history (s_db s') = status_history (s_db s) @ x" by blast
  moreover from Cons.IH [OF b] obtain y where
    "status_history (s_db s1) = status_history (s_db s') @ y" by blast
  ultimately show ?case by simp
qed

lemma process_results_row:
  "process_results e user app s rs = Inr s1 \<Longrightarrow>
   query_memory_first (s_db s) j = Some m \<Longrightarrow>
   \<exists>m1. query_memory_first (s_db s1) j = Some m1
      \<and> (mem_deleted_at m = Some (now e) \<longrightarrow> mem_deleted_at m1 = Some (now e))
      \<and> (mem_deleted_at m = Some (now e) \<and> mem_state m = deleted
           \<and> (\<forall>r \<in> set rs. \<not> (entry_uuid e r = Some j \<and> map_of r ''event'' = Some ''ADD''))
          \<longrightarrow> mem_state m1 = deleted)"
proof (induction rs arbitrary: s m)
  case Nil
  then show ?case by simp
next
  case (Cons r rs)
  from Cons.prems(1) obtain s' where
    a: "process_result e user app s r = Inr s'" and b: "process_results e user app s' rs = Inr s1"
    by (auto split: sum.splits)
  from process_result_row [OF a Cons.prems(2)] obtain m' where
    q: "query_memory_first (s_db s') j = Some m'"
    and d: "mem_deleted_at m = Some (now e) \<longrightarrow> mem_deleted_at m' = Some (now e)"
    and st: "mem_deleted_at m = Some (now e) \<and> mem_state m = deleted
                 \<and> \<not> (entry_uuid e r = Some j \<and> map_of r ''event'' = Some ''ADD'')
                \<longrightarrow> mem_state m' = deleted"
    by blast
  from Cons.IH [OF b q] obtain m1 where
    q1: "query_memory_first (s_db s1) j = Some m1"
    and d1: "mem_deleted_at m' = Some (now e) \<longrightarrow> mem_deleted_at m1 = Some (now e)"
    and st1: "mem_deleted_at m' = Some (now e) \<and> mem_state m' = deleted
           \<and> (\<forall>r \<in> set rs. \<not> (entry_uuid e r = Some j \<and> map_of r ''event'' = Some ''ADD''))
          \<longrightarrow> mem_state m1 = deleted"
    by blast
  show ?case
    using q1 d d1 st st1 by auto
qed

lemma db_commit_result:
  assumes "db_commit s = Inr db2"
  shows "status_history db2 = status_history (s_db s)"
    and "access_logs db2 = access_logs (s_db s)"
    and "query_memory_first (s_db s) j = Some m \<Longrightarrow> query_memory_first db2 j = Some m"
  using assms
  by (auto simp: db_commit_def query_memory_first_def find_append_found split: if_splits)

lemma add_memories_run:
  assumes "get_memory_client_safe e = Some client"
    and "get_user_and_app e db (py_or u (DEFAULT_USER_ID e)) (py_or c (DEFAULT_CLIENT_NAME e))
           = (db1, user, app)"
    and "app_is_active app"
    and "mc_add client t (py_or u (DEFAULT_USER_ID e))
           (add_metadata (py_or c (DEFAULT_CLIENT_NAME e))) = Inr (ResultsDict rs)"
  shows "add_memories e t u c db =
     (case process_results e user app \<lparr>s_db = db1, s_new = []\<rparr> rs of
        Inl x \<Rightarrow>
          (ErrorJson (''Error adding to memory: '' @ error_str x), db1,
           [OpenSession, EngineAdd t (py_or u (DEFAULT_USER_ID e))
                           (add_metadata (py_or c (DEFAULT_CLIENT_NAME e)))])
      | Inr s \<Rightarrow>
          (case db_commit s of
             Inl x \<Rightarrow>
               (ErrorJson (''Error adding to memory: '' @ error_str x), db1,
                [OpenSession, EngineAdd t (py_or u (DEFAULT_USER_ID e))
                                (add_metadata (py_or c (DEFAULT_CLIENT_NAME e)))])
           | Inr db2 \<Rightarrow>
               (AddJson (ResultsDict rs), db2,
                [OpenSession, EngineAdd t (py_or u (DEFAULT_USER_ID e))
                                (add_metadata (py_or c (DEFAULT_CLIENT_NAME e))), Commit])))"
  using assms
  by (simp add: add_memories_def Let_def split: sum.splits)

lemma add_memories_success:
  assumes client: "get_memory_client_safe e = Some client"
    and gua: "get_user_and_app e db (py_or u (DEFAULT_USER_ID e)) (py_or c (DEFAULT_CLIENT_NAME e))
           = (db1, user, app)"
    and resp: "mc_add client t (py_or u (DEFAULT_USER_ID e))
           (add_metadata (py_or c (DEFAULT_CLIENT_NAME e))) = Inr (ResultsDict rs)"
    and res: "add_memories e t u c db = (AddJson resp', db2, eff)"
  shows "\<exists>s. process_results e user app \<lparr>s_db = db1, s_new = []\<rparr> rs = Inr s
           \<and> db_commit s = Inr db2"
proof -
  have act: "app_is_active app"
    using res client gua by (cases "app_is_active app") (simp_all add: add_memories_def Let_def)
  show ?thesis
    using res add_memories_run [OF client gua act resp]
    by (auto split: sum.splits)
qed

section \<open>add_memories: DELETE and ADD events\<close>

text \<open>
  Claim C4, as amended. When \<open>add_memories\<close> completes (it returns the engine
  response, so the request was committed) and the response holds a DELETE event for
  a memory that has a row in the ledger, then after the call that row has
  \<open>deleted_at\<close> set, a history row for that memory with old state active and new
  state deleted is among the rows written by the call, and the row's state is
  deleted unless a later event of the same response is an ADD of the same id.
\<close>

theorem C4_delete_event:
  assumes client: "get_memory_client_safe e = Some client"
    and gua: "get_user_and_app e db (py_or u (DEFAULT_USER_ID e)) (py_or c (DEFAULT_CLIENT_NAME e))
           = (db1, user, app)"
    and resp: "mc_add client t (py_or u (DEFAULT_USER_ID e))
           (add_metadata (py_or c (DEFAULT_CLIENT_NAME e))) = Inr (ResultsDict (rs1 @ r # rs2))"
    and r_id: "entry_uuid e r = Some mid"
    and r_ev: "map_of r ''event'' = Some ''DELETE''"
    and row: "query_memory_first db mid = Some m0"
    and res: "add_memories e t u c db = (AddJson resp', db2, eff)"
  shows "(\<exists>m. query_memory_first db2 mid = Some m
            \<and> mem_deleted_at m = Some (now e)
            \<and> ((\<forall>r' \<in> set rs2. \<not> (entry_uuid e r' = Some mid
                                      \<and> map_of r' ''event'' = Some ''ADD''))
                 \<longrightarrow> mem_state m = deleted))
       \<and> \<lparr>hist_memory_id = mid, hist_changed_by = usr_id user,
           hist_old_state = Some active, hist_new_state = deleted\<rparr>
           \<in> set (drop (length (status_history db)) (status_history db2))"
proof -
  let ?s0 = "\<lparr>s_db = db1, s_new = []\<rparr>"
  let ?h = "\<lparr>hist_memory_id = mid, hist_changed_by = usr_id user,
             hist_old_state = Some active, hist_new_state = deleted\<rparr>"
  from add_memories_success [OF client gua resp res] obtain s where
    run: "process_results e user app ?s0 (rs1 @ r # rs2) = Inr s"
    and com: "db_commit s = Inr db2"
    by blast
  from run obtain sa where
    ra: "process_results e user app ?s0 rs1 = Inr sa"
    and rest: "process_results e user app sa (r # rs2) = Inr s"
    by (auto simp: process_results_append split: sum.splits)
  from rest obtain sb where
    rb: "process_result e user app sa r = Inr sb"
    and rc: "process_results e user app sb rs2 = Inr s"
    by (auto split: sum.splits)
  have row0: "query_memory_first (s_db ?s0) mid = Some m0"
    using row gua_memories [OF gua] by (simp add: query_memory_first_def)
  from process_results_row [OF ra row0] obtain ma where
    qa: "query_memory_first (s_db sa) mid = Some ma"
    by blast
  from process_result_query_same [OF rb r_id qa] have
    qb: "query_memory_first (s_db sb) mid
           = Some (ma\<lparr>mem_state := deleted, mem_deleted_at := Some (now e)\<rparr>)"
    and hb: "status_history (s_db sb) = status_history (s_db sa) @ [?h]"
    using r_ev by auto
  from process_results_row [OF rc qb] obtain m1 where
    q1: "query_memory_first (s_db s) mid = Some m1"
    and d1: "mem_deleted_at m1 = Some (now e)"
    and st1: "(\<forall>r' \<in> set rs2. \<not> (entry_uuid e r' = Some mid \<and> map_of r' ''event'' = Some ''ADD''))
                \<longrightarrow> mem_state m1 = deleted"
    by auto
  have q2: "query_memory_first db2 mid = Some m1"
    by (rule db_commit_result(3) [OF com q1])
  from process_results_history [OF ra] obtain x where
    hx: "status_history (s_db sa) = status_history db1 @ x"
    by auto
  from process_results_history [OF rc] obtain y where
    hy: "status_history (s_db s) = status_history (s_db sb) @ y"
    by auto
  have "status_history db2 = status_history db @ x @ [?h] @ y"
    using db_commit_result(1) [OF com] hx hy hb gua_history [OF gua] by simp
  then have "drop (length (status_history db)) (status_history db2) = x @ [?h] @ y"
    by simp
  then have hist: "?h \<in> set (drop (length (status_history db)) (status_history db2))"
    by simp
  show ?thesis
    using q2 d1 st1 hist by blast
qed

lemma demo_add_delete:
  "add_memories (demo_env [event ''DELETE'' ''1''] (\<lambda>m. True)) ''I like tea'' None None demo_db =
     (AddJson (ResultsDict [event ''DELETE'' ''1'']),
      demo_db\<lparr>memories :=
                 [demo_active_memory\<lparr>mem_state := deleted, mem_deleted_at := Some 7\<rparr>,
                  demo_deleted_memory],
               status_history :=
                 [\<lparr>hist_memory_id = 1, hist_changed_by = 10,
                   hist_old_state = Some active, hist_new_state = deleted\<rparr>]\<rparr>,
      [OpenSession,
       EngineAdd ''I like tea'' ''alice'' [(''source_app'', ''openmemory''), (''mcp_client'', ''cli'')],
       Commit])"
  by code_simp

lemma demo_add_delete_then_add:
  "add_memories (demo_env [event ''DELETE'' ''1'', event ''ADD'' ''1''] (\<lambda>m. True))
     ''I like tea'' None None demo_db =
     (AddJson (ResultsDict [event ''DELETE'' ''1'', event ''ADD'' ''1'']),
      demo_db\<lparr>memories :=
                 [demo_active_memory\<lparr>mem_deleted_at := Some 7\<rparr>, demo_deleted_memory],
               status_history :=
                 [\<lparr>hist_memory_id = 1, hist_changed_by = 10,
                   hist_old_state = Some active, hist_new_state = deleted\<rparr>,
                  \<lparr>hist_memory_id = 1, hist_changed_by = 10,
                   hist_old_state = Some deleted, hist_new_state = active\<rparr>]\<rparr>,
      [OpenSession,
       EngineAdd ''I like tea'' ''alice'' [(''source_app'', ''openmemory''), (''mcp_client'', ''cli'')],
       Commit])"
  by code_simp

lemma demo_add_delete_then_bad:
  "add_memories (demo_env [event ''DELETE'' ''1'', event ''ADD'' ''no uuid''] (\<lambda>m. True))
     ''I like tea'' None None demo_db =
     (ErrorJson ''Error adding to memory: badly formed hexadecimal UUID string'',
      demo_db,
      [OpenSession,
       EngineAdd ''I like tea'' ''alice'' [(''source_app'', ''openmemory''), (''mcp_client'', ''cli'')]])"
  by code_simp

lemma demo_query:
  "query_memory_first demo_db 1 = Some demo_active_memory"
  "query_memory_first demo_db 3 = None"
  by (simp_all add: query_memory_first_def demo_db_def demo_active_memory_def
      demo_deleted_memory_def)

text \<open>
  Claim C4, as stated. After the call the row need not be deleted: an ADD of the same id later in the
  response sets it active again, and an event that raises later in the response
  discards the whole request, the deletion with it.
\<close>

theorem C4_counterexample:
  "query_memory_first demo_db 1 = Some demo_active_memory
   \<and> fst (add_memories (demo_env [event ''DELETE'' ''1'', event ''ADD'' ''1''] (\<lambda>m. True))
           ''I like tea'' None None demo_db)
       = AddJson (ResultsDict [event ''DELETE'' ''1'', event ''ADD'' ''1''])
   \<and> query_memory_first
        (fst (snd (add_memories (demo_env [event ''DELETE'' ''1'', event ''ADD'' ''1''] (\<lambda>m. True))
                     ''I like tea'' None None demo_db))) 1
       = Some (demo_active_memory\<lparr>mem_deleted_at := Some 7\<rparr>)
   \<and> mem_state (demo_active_memory\<lparr>mem_deleted_at := Some 7\<rparr>) = active
   \<and> add_memories (demo_env [event ''DELETE'' ''1'', event ''ADD'' ''no uuid''] (\<lambda>m. True))
        ''I like tea'' None None demo_db
       = (ErrorJson ''Error adding to memory: badly formed hexadecimal UUID string'', demo_db,
          [OpenSession,
           EngineAdd ''I like tea'' ''alice''
             [(''source_app'', ''openmemory''), (''mcp_client'', ''cli'')]])"
  by code_simp

theorem C4_delete_event_witness:
  "\<exists>m. query_memory_first
          (demo_db\<lparr>memories :=
                 [demo_active_memory\<lparr>mem_state := deleted, mem_deleted_at := Some 7\<rparr>,
                  demo_deleted_memory],
               status_history :=
                 [\<lparr>hist_memory_id = 1, hist_changed_by = 10,
                   hist_old_state = Some active, hist_new_state = deleted\<rparr>]\<rparr>) 1 = Some m
        \<and> mem_deleted_at m = Some 7 \<and> mem_state m = deleted"
proof -
  let ?e = "demo_env [event ''DELETE'' ''1''] (\<lambda>m. True)"
  have resp: "mc_add (demo_client [event ''DELETE'' ''1'']) ''I like tea''
                (py_or None (DEFAULT_USER_ID ?e)) (add_metadata (py_or None (DEFAULT_CLIENT_NAME ?e)))
              = Inr (ResultsDict ([] @ event ''DELETE'' ''1'' # []))"
    by (simp add: demo_client_def)
  have r_id: "entry_uuid ?e (event ''DELETE'' ''1'') = Some 1"
    by (simp add: entry_uuid_def event_def demo_sel demo_uuid_of_string_def)
  have r_ev: "map_of (event ''DELETE'' ''1'') ''event'' = Some ''DELETE''"
    by (simp add: event_def)
  show ?thesis
    using C4_delete_event [OF demo_resolve(1) demo_resolve(2) resp r_id r_ev demo_query(1)
        demo_add_delete]
    by (simp add: demo_sel)
qed

text \<open>
  Claim C3, run on the code. An ADD event for an id with no ledger row creates the
  row in state active with the returned text and writes one history row with new
  state active; the history row's old state is deleted, not absent. An ADD event
  for a row that was active likewise records old state deleted.
\<close>

theorem C3_add_event_old_state:
  "query_memory_first demo_db 3 = None
   \<and> add_memories (demo_env [event ''ADD'' ''3''] (\<lambda>m. True)) ''I like tea'' None None demo_db =
     (AddJson (ResultsDict [event ''ADD'' ''3'']),
      demo_db\<lparr>memories :=
                 [demo_active_memory, demo_deleted_memory,
                  \<lparr>mem_id = 3, mem_user_id = 10, mem_app_id = 20, mem_content = ''I like tea'',
                   mem_state = active, mem_deleted_at = None\<rparr>],
               status_history :=
                 [\<lparr>hist_memory_id = 3, hist_changed_by = 10,
                   hist_old_state = Some deleted, hist_new_state = active\<rparr>]\<rparr>,
      [OpenSession,
       EngineAdd ''I like tea'' ''alice'' [(''source_app'', ''openmemory''), (''mcp_client'', ''cli'')],
       Commit])
   \<and> mem_state demo_active_memory = active
   \<and> status_history
        (fst (snd (add_memories (demo_env [event ''ADD'' ''1''] (\<lambda>m. True)) ''I like tea''
                     None None demo_db)))
       = [\<lparr>hist_memory_id = 1, hist_changed_by = 10,
           hist_old_state = Some deleted, hist_new_state = active\<rparr>]"
  by code_simp

section \<open>add_memories: a DELETE event without a row\<close>

lemma process_result_env:
  assumes a: "uuid_of_string e' = uuid_of_string e" and b: "now e' = now e"
    and c: "autoflush e' = autoflush e"
  shows "process_result e' user app s r = process_result e user app s r"
  unfolding process_result_def parse_uuid_def db_add_memory_def a b c
  by (rule refl)

lemma process_results_env:
  assumes a: "uuid_of_string e' = uuid_of_string e" and b: "now e' = now e"
    and c: "autoflush e' = autoflush e"
  shows "process_results e' user app s rs = process_results e user app s rs"
  by (induction rs arbitrary: s) (auto simp: process_result_env [OF a b c] split: sum.splits)

lemma get_user_and_app_env:
  assumes a: "new_user_key e' = new_user_key e" and b: "new_app_key e' = new_app_key e"
  shows "get_user_and_app e' db u c = get_user_and_app e db u c"
  unfolding get_user_and_app_def a b
  by (rule refl)

lemma process_result_skip:
  assumes r_id: "entry_uuid e r = Some mid"
    and r_ev: "map_of r ''event'' = Some ''DELETE''"
    and norow: "query_memory_first (s_db s) mid = None"
  shows "process_result e user app s r = Inr s"
proof -
  obtain id_str where g: "getitem r ''id'' = Inr id_str" and u: "uuid_of_string e id_str = Some mid"
    using r_id by (auto simp: entry_uuid_def getitem_def split: option.splits)
  have p: "parse_uuid e id_str = Inr mid"
    using u by (simp add: parse_uuid_def)
  have v: "getitem r ''event'' = Inr ''DELETE''"
    using r_ev by (simp add: getitem_def)
  show ?thesis
    using process_result_delete [OF g p v, of user app s] norow by simp
qed

text \<open>
  Claim C10. A DELETE event that is reached while the ledger, as the session's
  query sees it, has no Memory row of its id is skipped: processing it leaves the
  session as it was and raises nothing. The call therefore ends with the same
  ledger and the same effects as the call in which the engine does not report the
  event (no Memory, history or access-log row is written on its account), any
  error it returns is one that call returns too, and where that call returns the
  engine's response, this one returns its own response, the event included.
\<close>

theorem C10_delete_without_row:
  assumes client: "get_memory_client_safe e = Some client"
    and gua: "get_user_and_app e db (py_or u (DEFAULT_USER_ID e)) (py_or c (DEFAULT_CLIENT_NAME e))
           = (db1, user, app)"
    and act: "app_is_active app"
    and resp: "mc_add client t (py_or u (DEFAULT_USER_ID e))
           (add_metadata (py_or c (DEFAULT_CLIENT_NAME e))) = Inr (ResultsDict (rs1 @ r # rs2))"
    and r_id: "entry_uuid e r = Some mid"
    and r_ev: "map_of r ''event'' = Some ''DELETE''"
    and reach: "process_results e user app \<lparr>s_db = db1, s_new = []\<rparr> rs1 = Inr s1"
    and norow: "query_memory_first (s_db s1) mid = None"
    and without: "e' = e\<lparr>get_memory_client_safe :=
                         Some (client\<lparr>mc_add := \<lambda>a b c. Inr (ResultsDict (rs1 @ rs2))\<rparr>)\<rparr>"
  shows "process_result e user app s1 r = Inr s1
       \<and> snd (add_memories e t u c db) = snd (add_memories e' t u c db)
       \<and> (fst (add_memories e' t u c db) = AddJson (ResultsDict (rs1 @ rs2))
            \<longrightarrow> fst (add_memories e t u c db) = AddJson (ResultsDict (rs1 @ r # rs2)))
       \<and> (\<forall>msg. fst (add_memories e t u c db) = ErrorJson msg
            \<longrightarrow> fst (add_memories e' t u c db) = ErrorJson msg)"
proof -
  let ?s0 = "\<lparr>s_db = db1, s_new = []\<rparr>"
  let ?call = "EngineAdd t (py_or u (DEFAULT_USER_ID e)) (add_metadata (py_or c (DEFAULT_CLIENT_NAME e)))"
  let ?out = "\<lambda>rs. (case process_results e user app ?s0 rs of
        Inl x \<Rightarrow> (ErrorJson (''Error adding to memory: '' @ error_str x), db1, [OpenSession, ?call])
      | Inr s \<Rightarrow>
          (case db_commit s of
             Inl x \<Rightarrow> (ErrorJson (''Error adding to memory: '' @ error_str x), db1,
                        [OpenSession, ?call])
           | Inr db2 \<Rightarrow> (AddJson (ResultsDict rs), db2, [OpenSession, ?call, Commit])))"
  have skip: "process_result e user app s1 r = Inr s1"
    by (rule process_result_skip [OF r_id r_ev norow])
  have same: "process_results e user app ?s0 (rs1 @ r # rs2)
                = process_results e user app ?s0 (rs1 @ rs2)"
    using reach skip by (simp add: process_results_append)
  have run: "add_memories e t u c db = ?out (rs1 @ r # rs2)"
    by (rule add_memories_run [OF client gua act resp])
  have client': "get_memory_client_safe e' =
                   Some (client\<lparr>mc_add := \<lambda>a b c. Inr (ResultsDict (rs1 @ rs2))\<rparr>)"
    using without by simp
  have gua': "get_user_and_app e' db (py_or u (DEFAULT_USER_ID e')) (py_or c (DEFAULT_CLIENT_NAME e'))
                = (db1, user, app)"
    using gua without get_user_and_app_env [of e' e] by simp
  have resp': "mc_add (client\<lparr>mc_add := \<lambda>a b c. Inr (ResultsDict (rs1 @ rs2))\<rparr>) t
                 (py_or u (DEFAULT_USER_ID e')) (add_metadata (py_or c (DEFAULT_CLIENT_NAME e')))
               = Inr (ResultsDict (rs1 @ rs2))"
    by simp
  have env: "process_results e' user app ?s0 (rs1 @ rs2) = process_results e user app ?s0 (rs1 @ rs2)"
    by (rule process_results_env) (simp_all add: without)
  have du: "DEFAULT_USER_ID e' = DEFAULT_USER_ID e"
    and dc: "DEFAULT_CLIENT_NAME e' = DEFAULT_CLIENT_NAME e"
    by (simp_all add: without)
  have run': "add_memories e' t u c db = ?out (rs1 @ rs2)"
    by (rule add_memories_run [OF client' gua' act resp', unfolded du dc env])
  show ?thesis
  proof (cases "process_results e user app ?s0 (rs1 @ rs2)")
    case (Inl x)
    then show ?thesis
      using skip run run' same by simp
  next
    case (Inr s)
    show ?thesis
    proof (cases "db_commit s")
      case (Inl x)
      then show ?thesis
        using skip run run' same Inr by simp
    next
      case (Inr db2)
      then show ?thesis
        using skip run run' same \<open>process_results e user app ?s0 (rs1 @ rs2) = Inr s\<close>
        by simp
    qed
  qed
qed

lemma demo_add_delete_missing:
  "add_memories (demo_env [event ''DELETE'' ''3''] (\<lambda>m. True)) ''I like tea'' None None demo_db =
     (AddJson (ResultsDict [event ''DELETE'' ''3'']), demo_db,
      [OpenSession,
       EngineAdd ''I like tea'' ''alice'' [(''source_app'', ''openmemory''), (''mcp_client'', ''cli'')],
       Commit])"
  by code_simp

lemma demo_add_nothing:
  "add_memories
     (demo_env [event ''DELETE'' ''3''] (\<lambda>m. True)
        \<lparr>get_memory_client_safe :=
           Some (demo_client [event ''DELETE'' ''3'']
                   \<lparr>mc_add := \<lambda>a b c. Inr (ResultsDict ([] @ []))\<rparr>)\<rparr>)
     ''I like tea'' None None demo_db =
     (AddJson (ResultsDict []), demo_db,
      [OpenSession,
       EngineAdd ''I like tea'' ''alice'' [(''source_app'', ''openmemory''), (''mcp_client'', ''cli'')],
       Commit])"
  by code_simp

theorem C10_delete_without_row_witness:
  "query_memory_first demo_db 3 = None
   \<and> process_result (demo_env [event ''DELETE'' ''3''] (\<lambda>m. True)) demo_user demo_app
        \<lparr>s_db = demo_db, s_new = []\<rparr> (event ''DELETE'' ''3'')
       = Inr \<lparr>s_db = demo_db, s_new = []\<rparr>
   \<and> add_memories (demo_env [event ''DELETE'' ''3''] (\<lambda>m. True)) ''I like tea'' None None demo_db
       = (AddJson (ResultsDict [event ''DELETE'' ''3'']), demo_db,
          [OpenSession,
           EngineAdd ''I like tea'' ''alice''
             [(''source_app'', ''openmemory''), (''mcp_client'', ''cli'')],
           Commit])"
proof -
  let ?e = "demo_env [event ''DELETE'' ''3''] (\<lambda>m. True)"
  let ?s0 = "\<lparr>s_db = demo_db, s_new = []\<rparr>"
  have act: "app_is_active demo_app"
    by (simp add: demo_app_def)
  have resp: "mc_add (demo_client [event ''DELETE'' ''3'']) ''I like tea''
                (py_or None (DEFAULT_USER_ID ?e)) (add_metadata (py_or None (DEFAULT_CLIENT_NAME ?e)))
              = Inr (ResultsDict ([] @ event ''DELETE'' ''3'' # []))"
    by (simp add: demo_client_def)
  have r_id: "entry_uuid ?e (event ''DELETE'' ''3'') = Some 3"
    by (simp add: entry_uuid_def event_def demo_sel demo_uuid_of_string_def)
  have r_ev: "map_of (event ''DELETE'' ''3'') ''event'' = Some ''DELETE''"
    by (simp add: event_def)
  have reach: "process_results ?e demo_user demo_app ?s0 [] = Inr ?s0"
    by simp
  have norow: "query_memory_first (s_db ?s0) 3 = None"
    by (simp add: demo_query)
  note inst = C10_delete_without_row [OF demo_resolve(1) demo_resolve(2) act resp r_id r_ev reach
      norow refl]
  have "fst (add_memories ?e ''I like tea'' None None demo_db)
          = AddJson (ResultsDict ([] @ event ''DELETE'' ''3'' # []))"
    using inst demo_add_nothing by simp
  moreover have "snd (add_memories ?e ''I like tea'' None None demo_db)
          = (demo_db, [OpenSession,
           EngineAdd ''I like tea'' ''alice''
             [(''source_app'', ''openmemory''), (''mcp_client'', ''cli'')], Commit])"
    using inst demo_add_nothing by simp
  ultimately have "add_memories ?e ''I like tea'' None None demo_db
       = (AddJson (ResultsDict [event ''DELETE'' ''3'']), demo_db,
          [OpenSession,
           EngineAdd ''I like tea'' ''alice''
             [(''source_app'', ''openmemory''), (''mcp_client'', ''cli'')],
           Commit])"
    by (simp add: prod_eq_iff)
  then show ?thesis
    using inst by (simp add: demo_query)
qed

end
